theory Spec2Isabelle
  imports Main "HOL-Library.List_Lexorder" "HOL-Library.Char_ord" "HOL-Library.Multiset"
begin

section \<open>The world of the script: directories, console, outside calls\<close>

text \<open>
  \<^verbatim>\<open>convert_stl_to_step.py\<close> works on two directories, \<^verbatim>\<open>STL_DIR\<close> and \<^verbatim>\<open>STEP_DIR\<close>,
  prints to the console, calls the CAD library and calls \<^verbatim>\<open>os.remove\<close>. A directory is
  the list of its entries, in the order \<^verbatim>\<open>os.listdir\<close> yields them; an entry is a name
  and what sits under that name. A directory that does not exist is \<open>None\<close>. The path
  \<^verbatim>\<open>os.path.join(DIR, name)\<close> of an entry is the pair of the directory and the name
  (a name that \<^verbatim>\<open>os.listdir\<close> returns holds no separator).

  File names are byte strings (UTF-8). The ASCII bytes the script looks at
  (\<^verbatim>\<open>.\<close>, \<^verbatim>\<open>s\<close>, \<^verbatim>\<open>t\<close>, \<^verbatim>\<open>l\<close>) never occur inside a multi-byte sequence, and the
  byte order of UTF-8 is the code point order that Python's \<^verbatim>\<open>sorted\<close> uses.
\<close>

datatype kind = Regular | Subdir

type_synonym dir = "(string \<times> kind) list"

datatype dir_id = STL_DIR | STEP_DIR

type_synonym path = "dir_id \<times> string"

text \<open>
  An exception, as far as the script can tell exceptions apart. \<open>Exn msg\<close> is an instance
  of \<^verbatim>\<open>Exception\<close> for which \<^verbatim>\<open>str(e)\<close> gives \<open>msg\<close>. \<open>Unprintable e'\<close> is an instance of
  \<^verbatim>\<open>Exception\<close> that the handlers cannot report: formatting it (\<^verbatim>\<open>str(e)\<close> at line 98,
  \<^verbatim>\<open>{e}\<close> at line 144) raises \<open>e'\<close>. \<open>BaseExn msg\<close> is an exception that is not an
  instance of \<^verbatim>\<open>Exception\<close> (\<^verbatim>\<open>SystemExit\<close>, \<^verbatim>\<open>KeyboardInterrupt\<close>, \<^verbatim>\<open>GeneratorExit\<close>),
  which \<^verbatim>\<open>except Exception\<close> does not catch.
\<close>

datatype exn = Exn string | Unprintable exn | BaseExn string

text \<open>How a call of \<^verbatim>\<open>convert_stl_to_step\<close> ends: it returns a truth value, or an
  exception leaves it.\<close>

datatype outcome = Returned bool | Raised exn

text \<open>
  The places of \<^verbatim>\<open>convert_stl_to_step\<close> where control enters the CAD library, one per
  source line (52, 53, 54, 63, 66, 69, 70, 75, 76, 79, 82, 83, 86, 89, 92).
\<close>

datatype lib_call =
    ImportFreeCAD | ImportMesh | ImportPart
  | NewDocument | MeshInsert | DocObjects0 | MeshAttr
  | NewShape | MakeShapeFromMesh | RemoveSplitter | IsValid
  | PartSolid | MakeSolid | ExportStep | CloseDocument

text \<open>The log of calls that leave the script: library calls (with the file being
  converted) and \<^verbatim>\<open>os.remove\<close> calls (with the path).\<close>

datatype event = LibCall string lib_call | OsRemove path

record state =
  dirs :: "dir_id \<Rightarrow> dir option"
  console :: "string list"
  events :: "event list"

text \<open>
  What the script does not decide is a parameter: the two directory paths (the
  module constants, used here only in messages), whether \<^verbatim>\<open>os.makedirs\<close> and
  \<^verbatim>\<open>os.remove\<close> raise, and the CAD library. The library is opaque to the script, so
  it is given by what the script can observe of it: for the file being converted and the
  call site, the exception raised there if any, and the answer of \<^verbatim>\<open>shape.isValid()\<close>.
  Its one effect on the two directories is that of \<^verbatim>\<open>exportStep\<close>: a call that returns
  has written the file at the path it was given, and a call that raises may have left
  a file there or not (\<open>export_leaves_file\<close>).
\<close>

record env =
  stl_dir_path :: string
  step_dir_path :: string
  makedirs_raises :: "dir_id \<Rightarrow> exn option"
  lib_raises :: "string \<Rightarrow> lib_call \<Rightarrow> exn option"
  shape_is_valid :: "string \<Rightarrow> bool"
  export_leaves_file :: "string \<Rightarrow> bool"
  remove_raises :: "string \<Rightarrow> exn option"

definition print :: "string \<Rightarrow> state \<Rightarrow> state" where
  "print line st = st\<lparr>console := console st @ [line]\<rparr>"

definition os_path_join :: "dir_id \<Rightarrow> string \<Rightarrow> path" where
  "os_path_join d name = (d, name)"

section \<open>Strings\<close>

definition ascii_uppercase :: string where
  "ascii_uppercase = ''ABCDEFGHIJKLMNOPQRSTUVWXYZ''"

definition ascii_lowercase :: string where
  "ascii_lowercase = ''abcdefghijklmnopqrstuvwxyz''"

text \<open>\<^verbatim>\<open>str.lower\<close>, on the ASCII letters. No character outside ASCII has a lower case
  that holds one of \<^verbatim>\<open>.\<close>, \<^verbatim>\<open>s\<close>, \<^verbatim>\<open>t\<close>, \<^verbatim>\<open>l\<close>, so the other bytes are left as they
  are without changing what \<^verbatim>\<open>endswith('.stl')\<close> answers.\<close>

definition lower_char :: "char \<Rightarrow> char" where
  "lower_char c = (case map_of (zip ascii_uppercase ascii_lowercase) c of
                     Some l \<Rightarrow> l | None \<Rightarrow> c)"

definition lower :: "string \<Rightarrow> string" where
  "lower s = map lower_char s"

definition endswith :: "string \<Rightarrow> string \<Rightarrow> bool" where
  "endswith s suf = (length suf \<le> length s \<and> drop (length s - length suf) s = suf)"

text \<open>\<^verbatim>\<open>str.rfind\<close> for a single character: the highest index, or \<open>-1\<close>.\<close>

definition rfind :: "string \<Rightarrow> char \<Rightarrow> int" where
  "rfind p c = (case filter (\<lambda>i. p ! i = c) (rev [0..<length p]) of
                  [] \<Rightarrow> -1 | i # _ \<Rightarrow> int i)"

text \<open>
  \<^verbatim>\<open>os.path.splitext\<close> (POSIX), as the standard library defines it:
  \<^verbatim>\<open>
  sepIndex = p.rfind('/')
  dotIndex = p.rfind('.')
  if dotIndex > sepIndex:
      filenameIndex = sepIndex + 1
      while filenameIndex < dotIndex:
          if p[filenameIndex:filenameIndex+1] != '.':
              return p[:dotIndex], p[dotIndex:]
          filenameIndex += 1
  return p, p[:0]
  \<close>
  \<open>skip_leading_dots\<close> is the while loop; it answers whether the loop returns the split.
\<close>

function skip_leading_dots :: "string \<Rightarrow> nat \<Rightarrow> nat \<Rightarrow> bool" where
  "skip_leading_dots p filenameIndex dotIndex =
     (if filenameIndex < dotIndex
      then (if p ! filenameIndex \<noteq> CHR ''.'' then True
            else skip_leading_dots p (filenameIndex + 1) dotIndex)
      else False)"
  by pat_completeness auto
termination
  by (relation "measure (\<lambda>(p, filenameIndex, dotIndex). dotIndex - filenameIndex)") auto

declare skip_leading_dots.simps [simp del]

definition splitext :: "string \<Rightarrow> string \<times> string" where
  "splitext p =
     (let sepIndex = rfind p CHR ''/''; dotIndex = rfind p CHR ''.'' in
      if dotIndex > sepIndex \<and> skip_leading_dots p (nat (sepIndex + 1)) (nat dotIndex)
      then (take (nat dotIndex) p, drop (nat dotIndex) p)
      else (p, []))"

text \<open>\<^verbatim>\<open>str\<close> of an integer, for the counts in the messages.\<close>

fun str_nat :: "nat \<Rightarrow> string" where
  "str_nat n = (if n < 10 then [''0123456789'' ! n]
                else str_nat (n div 10) @ [''0123456789'' ! (n mod 10)])"

definition str_int :: "int \<Rightarrow> string" where
  "str_int i = (if i < 0 then CHR ''-'' # str_nat (nat (- i)) else str_nat (nat i))"

section \<open>Directory setup and file discovery\<close>

text \<open>\<^verbatim>\<open>os.makedirs(d, exist_ok=True)\<close>: raises, or leaves the directory existing.\<close>

text \<open>Outside \<^verbatim>\<open>convert_stl_to_step\<close> a run is either ended by an exception that nothing
  catches (\<open>Inl\<close>, with the state at that moment) or goes on (\<open>Inr\<close>).\<close>

definition makedirs :: "env \<Rightarrow> dir_id \<Rightarrow> state \<Rightarrow> (exn \<times> state) + state" where
  "makedirs env d st =
     (case makedirs_raises env d of
        Some e \<Rightarrow> Inl (e, st)
      | None \<Rightarrow> Inr (st\<lparr>dirs := (dirs st)(d := Some (case dirs st d of
                                                         None \<Rightarrow> [] | Some entries \<Rightarrow> entries))\<rparr>))"

definition setup_directories :: "env \<Rightarrow> state \<Rightarrow> (exn \<times> state) + state" where
  "setup_directories env st =
     (case makedirs env STL_DIR st of
        Inl r \<Rightarrow> Inl r
      | Inr st1 \<Rightarrow> makedirs env STEP_DIR st1)"

definition get_stl_files :: "state \<Rightarrow> string list" where
  "get_stl_files st =
     (case dirs st STL_DIR of
        None \<Rightarrow> []
      | Some entries \<Rightarrow>
          sort (filter (\<lambda>f. endswith (lower f) ''.stl'') (map fst entries)))"

section \<open>Converting one file\<close>

text \<open>
  The library calls of a \<^verbatim>\<open>try\<close> block run in order; each is logged, and the first one
  that raises ends the run with its exception.
\<close>

fun run_calls :: "env \<Rightarrow> string \<Rightarrow> lib_call list \<Rightarrow> state \<Rightarrow> exn option \<times> state" where
  "run_calls env f [] st = (None, st)"
| "run_calls env f (c # cs) st =
     (let st' = st\<lparr>events := events st @ [LibCall f c]\<rparr> in
      case lib_raises env f c of
        Some e \<Rightarrow> (Some e, st')
      | None \<Rightarrow> run_calls env f cs st')"

text \<open>The effect of an \<^verbatim>\<open>exportStep\<close> that writes: the file exists at the path. Writing
  over an existing entry keeps the one entry; nothing can be written into a directory
  that does not exist.\<close>

definition write_file :: "path \<Rightarrow> state \<Rightarrow> state" where
  "write_file p st =
     (case p of (d, name) \<Rightarrow>
        (case dirs st d of
           None \<Rightarrow> st
         | Some entries \<Rightarrow>
             if name \<in> set (map fst entries) then st
             else st\<lparr>dirs := (dirs st)(d := Some (entries @ [(name, Regular)]))\<rparr>))"

text \<open>The \<^verbatim>\<open>except Exception as e\<close> clause (lines 97 to 99), for an exception raised in
  the \<^verbatim>\<open>try\<close> block: an instance of \<^verbatim>\<open>Exception\<close> is caught and reported, unless
  reporting it raises, and then that exception leaves the function; any other
  exception is not caught.\<close>

definition except_handler :: "string \<Rightarrow> exn \<Rightarrow> state \<Rightarrow> outcome \<times> state" where
  "except_handler stl_filename e st =
     (case e of
        Exn msg \<Rightarrow>
          (Returned False, print (''  ERROR converting '' @ stl_filename @ '': '' @ msg) st)
      | Unprintable e' \<Rightarrow> (Raised e', st)
      | BaseExn msg \<Rightarrow> (Raised (BaseExn msg), st))"

definition step_path :: "string \<Rightarrow> path" where
  "step_path stl_filename =
     (let base_name = fst (splitext stl_filename)
      in os_path_join STEP_DIR (base_name @ ''.step''))"

definition convert_stl_to_step :: "env \<Rightarrow> string \<Rightarrow> state \<Rightarrow> outcome \<times> state" where
  "convert_stl_to_step env stl_filename st =
     (case run_calls env stl_filename [ImportFreeCAD, ImportMesh, ImportPart] st of
        (Some e, st1) \<Rightarrow> except_handler stl_filename e st1
      | (None, st1) \<Rightarrow>
     (let stl_path = os_path_join STL_DIR stl_filename;
          base_name = fst (splitext stl_filename);
          st2 = print (''Converting: '' @ stl_filename) st1
      in case run_calls env stl_filename
                [NewDocument, MeshInsert, DocObjects0, MeshAttr, NewShape,
                 MakeShapeFromMesh, RemoveSplitter, IsValid] st2 of
        (Some e, st3) \<Rightarrow> except_handler stl_filename e st3
      | (None, st3) \<Rightarrow>
     (case run_calls env stl_filename
             [if shape_is_valid env stl_filename then PartSolid else MakeSolid] st3 of
        (Some e, st4) \<Rightarrow> except_handler stl_filename e st4
      | (None, st4) \<Rightarrow>
     (case run_calls env stl_filename [ExportStep] st4 of
        (Some e, st5) \<Rightarrow>
          except_handler stl_filename e
            (if export_leaves_file env stl_filename
             then write_file (step_path stl_filename) st5 else st5)
      | (None, st5) \<Rightarrow>
     (case run_calls env stl_filename [CloseDocument]
             (write_file (step_path stl_filename) st5) of
        (Some e, st6) \<Rightarrow> except_handler stl_filename e st6
      | (None, st6) \<Rightarrow>
          (Returned True, print (''  -> Created: '' @ base_name @ ''.step'') st6))))))"

section \<open>The batch\<close>

text \<open>\<^verbatim>\<open>os.remove(path)\<close>: raises, or the entry is gone.\<close>

definition os_remove :: "env \<Rightarrow> path \<Rightarrow> state \<Rightarrow> exn option \<times> state" where
  "os_remove env p st =
     (case p of (d, name) \<Rightarrow>
        (let st' = st\<lparr>events := events st @ [OsRemove p]\<rparr> in
         case remove_raises env name of
           Some e \<Rightarrow> (Some e, st')
         | None \<Rightarrow>
             (None, st'\<lparr>dirs := (dirs st')(d := map_option (filter (\<lambda>entry. fst entry \<noteq> name))
                                                   (dirs st' d))\<rparr>)))"

fun print_all :: "string list \<Rightarrow> state \<Rightarrow> state" where
  "print_all [] st = st"
| "print_all (line # rest) st = print_all rest (print line st)"

text \<open>The loop of lines 129 to 134, on \<open>(successful, failed, files_to_remove, state)\<close>.
  The call at line 130 is not inside a \<^verbatim>\<open>try\<close>: an exception that leaves
  \<^verbatim>\<open>convert_stl_to_step\<close> ends the loop, with the counters as they are.\<close>

fun convert_all ::
  "env \<Rightarrow> string list \<Rightarrow> int \<times> int \<times> string list \<times> state
     \<Rightarrow> exn option \<times> int \<times> int \<times> string list \<times> state"
where
  "convert_all env [] (successful, failed, files_to_remove, st) =
     (None, successful, failed, files_to_remove, st)"
| "convert_all env (stl_file # rest) (successful, failed, files_to_remove, st) =
     (case convert_stl_to_step env stl_file st of
        (Returned True, st') \<Rightarrow>
          convert_all env rest (successful + 1, failed, files_to_remove @ [stl_file], st')
      | (Returned False, st') \<Rightarrow>
          convert_all env rest (successful, failed + 1, files_to_remove, st')
      | (Raised e, st') \<Rightarrow> (Some e, successful, failed, files_to_remove, st'))"

text \<open>The loop of lines 138 to 144. The \<^verbatim>\<open>except Exception as e\<close> clause of line 143
  catches what line 97 catches; an exception that it does not catch, or that the
  formatting of the warning raises, ends the loop.\<close>

fun remove_all :: "env \<Rightarrow> string list \<Rightarrow> state \<Rightarrow> exn option \<times> state" where
  "remove_all env [] st = (None, st)"
| "remove_all env (stl_file # rest) st =
     (let stl_path = os_path_join STL_DIR stl_file in
      case os_remove env stl_path st of
        (None, st') \<Rightarrow> remove_all env rest (print (''Removed: '' @ stl_file) st')
      | (Some (Exn msg), st') \<Rightarrow>
          remove_all env rest
            (print (''Warning: Could not remove '' @ stl_file @ '': '' @ msg) st')
      | (Some (Unprintable e'), st') \<Rightarrow> (Some e', st')
      | (Some (BaseExn msg), st') \<Rightarrow> (Some (BaseExn msg), st'))"

definition banner :: string where
  "banner = replicate 60 CHR ''=''"

text \<open>The seven lines printed at lines 147 to 153.\<close>

definition summary_lines :: "env \<Rightarrow> int \<Rightarrow> int \<Rightarrow> string list" where
  "summary_lines env successful failed =
     ['''', banner, ''Conversion complete!'',
      ''  Successful: '' @ str_int successful,
      ''  Failed: '' @ str_int failed,
      ''  Output directory: '' @ step_dir_path env,
      banner]"

text \<open>The three lines printed at lines 114 to 116, before the early return.\<close>

definition no_files_lines :: "env \<Rightarrow> string list" where
  "no_files_lines env =
     [CHR 0x0A # ''No STL files found in: '' @ stl_dir_path env,
      ''Please place your .stl files in the '' @ [CHR 0x27] @ ''stl_files'' @ [CHR 0x27]
        @ '' directory.'',
      banner]"

text \<open>\<^verbatim>\<open>main\<close> catches nothing outside the cleanup loop: an exception raised by
  \<^verbatim>\<open>setup_directories\<close>, or that leaves one of the two loops, ends the run (\<open>Inl\<close>).\<close>

definition main :: "env \<Rightarrow> state \<Rightarrow> (exn \<times> state) + state" where
  "main env st0 =
     (case setup_directories env
             (print_all [banner, ''STL to STEP Converter'', banner] st0) of
        Inl r \<Rightarrow> Inl r
      | Inr st1 \<Rightarrow>
          (let stl_files = get_stl_files st1 in
           if stl_files = [] then Inr (print_all (no_files_lines env) st1)
           else
             (let st2 = print (CHR 0x0A # ''Found '' @ str_int (int (length stl_files))
                                @ '' STL file(s) to process:'') st1;
                  st3 = print_all (map (\<lambda>f. ''  - '' @ f) stl_files) st2;
                  st4 = print [] st3
              in case convert_all env stl_files (0, 0, [], st4) of
                   (Some e, successful, failed, files_to_remove, st5) \<Rightarrow> Inl (e, st5)
                 | (None, successful, failed, files_to_remove, st5) \<Rightarrow>
                     (case remove_all env files_to_remove (print [] st5) of
                        (Some e, st7) \<Rightarrow> Inl (e, st7)
                      | (None, st7) \<Rightarrow>
                          Inr (print_all (summary_lines env successful failed) st7)))))"

section \<open>Notions used to state the properties\<close>

text \<open>A name ends in \<^verbatim>\<open>.stl\<close> whatever the case of its letters: the same thing as
  \<^verbatim>\<open>f.lower().endswith('.stl')\<close>, said on the characters of the name.\<close>

definition has_stl_suffix :: "string \<Rightarrow> bool" where
  "has_stl_suffix f =
     (4 \<le> length f \<and> f ! (length f - 4) = CHR ''.''
      \<and> f ! (length f - 3) \<in> {CHR ''s'', CHR ''S''}
      \<and> f ! (length f - 2) \<in> {CHR ''t'', CHR ''T''}
      \<and> f ! (length f - 1) \<in> {CHR ''l'', CHR ''L''})"

text \<open>The naming contract as the specification words it: the extension (the four
  characters that made discovery pick the file) replaced by \<^verbatim>\<open>.step\<close>.\<close>

definition spec_step_name :: "string \<Rightarrow> string" where
  "spec_step_name f = take (length f - 4) f @ ''.step''"

text \<open>Reading a decimal numeral, the inverse of \<^verbatim>\<open>str\<close> on the natural numbers.\<close>

definition digit_value :: "char \<Rightarrow> nat" where
  "digit_value c = (case map_of (zip ''0123456789'' [0, 1, 2, 3, 4, 5, 6, 7, 8, 9]) c of
                        Some d \<Rightarrow> d | None \<Rightarrow> 0)"

definition read_nat :: "string \<Rightarrow> nat" where
  "read_nat s = foldl (\<lambda>a c. 10 * a + digit_value c) 0 s"

text \<open>The first exception among a sequence of library calls, and the calls that are
  made (up to and including the one that raises).\<close>

fun first_raise :: "env \<Rightarrow> string \<Rightarrow> lib_call list \<Rightarrow> exn option" where
  "first_raise env f [] = None"
| "first_raise env f (c # cs) =
     (case lib_raises env f c of Some e \<Rightarrow> Some e | None \<Rightarrow> first_raise env f cs)"

fun calls_made :: "env \<Rightarrow> string \<Rightarrow> lib_call list \<Rightarrow> lib_call list" where
  "calls_made env f [] = []"
| "calls_made env f (c # cs) =
     c # (case lib_raises env f c of Some e \<Rightarrow> [] | None \<Rightarrow> calls_made env f cs)"

definition import_calls :: "lib_call list" where
  "import_calls = [ImportFreeCAD, ImportMesh, ImportPart]"

definition mesh_calls :: "lib_call list" where
  "mesh_calls =
     [NewDocument, MeshInsert, DocObjects0, MeshAttr, NewShape,
      MakeShapeFromMesh, RemoveSplitter, IsValid]"

definition solid_call :: "env \<Rightarrow> string \<Rightarrow> lib_call" where
  "solid_call env f = (if shape_is_valid env f then PartSolid else MakeSolid)"

definition calls_before_export :: "env \<Rightarrow> string \<Rightarrow> lib_call list" where
  "calls_before_export env f = mesh_calls @ [solid_call env f]"

definition calls_to_export :: "env \<Rightarrow> string \<Rightarrow> lib_call list" where
  "calls_to_export env f = calls_before_export env f @ [ExportStep]"

definition all_calls :: "env \<Rightarrow> string \<Rightarrow> lib_call list" where
  "all_calls env f = import_calls @ calls_to_export env f @ [CloseDocument]"

text \<open>The exception the library raises while \<open>f\<close> is converted, if any; whether the
  conversion succeeds; whether \<^verbatim>\<open>exportStep\<close> is called and returns; whether it is
  called at all; whether the conversion leaves a file at the output path.\<close>

definition raised :: "env \<Rightarrow> string \<Rightarrow> exn option" where
  "raised env f = first_raise env f (all_calls env f)"

definition succeeds :: "env \<Rightarrow> string \<Rightarrow> bool" where
  "succeeds env f = (raised env f = None)"

definition exported :: "env \<Rightarrow> string \<Rightarrow> bool" where
  "exported env f = (first_raise env f (import_calls @ calls_to_export env f) = None)"

definition reached_export :: "env \<Rightarrow> string \<Rightarrow> bool" where
  "reached_export env f =
     (first_raise env f (import_calls @ calls_before_export env f) = None)"

definition wrote :: "env \<Rightarrow> string \<Rightarrow> bool" where
  "wrote env f =
     (reached_export env f \<and> (lib_raises env f ExportStep = None \<or> export_leaves_file env f))"

text \<open>What becomes of an exception raised in the \<^verbatim>\<open>try\<close> block, and so how the conversion
  of \<open>f\<close> ends; the exception that leaves it, if one does.\<close>

fun handled :: "exn \<Rightarrow> outcome" where
  "handled (Exn msg) = Returned False"
| "handled (Unprintable e') = Raised e'"
| "handled (BaseExn msg) = Raised (BaseExn msg)"

definition outcome_of :: "env \<Rightarrow> string \<Rightarrow> outcome" where
  "outcome_of env f = (case raised env f of None \<Rightarrow> Returned True | Some e \<Rightarrow> handled e)"

definition escape :: "env \<Rightarrow> string \<Rightarrow> exn option" where
  "escape env f =
     (case outcome_of env f of Returned b \<Rightarrow> None | Raised e \<Rightarrow> Some e)"

definition escapes :: "env \<Rightarrow> string \<Rightarrow> bool" where
  "escapes env f = (escape env f \<noteq> None)"

definition fails :: "env \<Rightarrow> string \<Rightarrow> bool" where
  "fails env f = (outcome_of env f = Returned False)"

definition error_line :: "string \<Rightarrow> string \<Rightarrow> string" where
  "error_line f msg = ''  ERROR converting '' @ f @ '': '' @ msg"

fun handler_lines :: "string \<Rightarrow> exn \<Rightarrow> string list" where
  "handler_lines f (Exn msg) = [error_line f msg]"
| "handler_lines f (Unprintable e') = []"
| "handler_lines f (BaseExn msg) = []"

text \<open>What the conversion of \<open>f\<close> prints.\<close>

definition convert_lines :: "env \<Rightarrow> string \<Rightarrow> string list" where
  "convert_lines env f =
     (case first_raise env f import_calls of
        Some e \<Rightarrow> handler_lines f e
      | None \<Rightarrow>
          (''Converting: '' @ f) #
          (case raised env f of
             Some e \<Rightarrow> handler_lines f e
           | None \<Rightarrow> [''  -> Created: '' @ fst (splitext f) @ ''.step'']))"

text \<open>The elements of a list through the first one with a property.\<close>

fun through_first :: "('a \<Rightarrow> bool) \<Rightarrow> 'a list \<Rightarrow> 'a list" where
  "through_first P [] = []"
| "through_first P (x # xs) = x # (if P x then [] else through_first P xs)"

text \<open>The files the conversion loop gets to, and the exception that ends it, if any.\<close>

definition attempted :: "env \<Rightarrow> string list \<Rightarrow> string list" where
  "attempted env files = through_first (escapes env) files"

fun loop_escape :: "env \<Rightarrow> string list \<Rightarrow> exn option" where
  "loop_escape env [] = None"
| "loop_escape env (f # fs) =
     (case escape env f of Some e \<Rightarrow> Some e | None \<Rightarrow> loop_escape env fs)"

text \<open>The state after the conversion loop; what a deletion attempt prints; the
  exception of \<^verbatim>\<open>os.remove\<close> that the cleanup loop does not contain, if any.\<close>

definition after_conversions :: "env \<Rightarrow> string list \<Rightarrow> state \<Rightarrow> state" where
  "after_conversions env fs st = fold (\<lambda>f s. snd (convert_stl_to_step env f s)) fs st"

definition remove_lines :: "env \<Rightarrow> string \<Rightarrow> string list" where
  "remove_lines env f =
     (case remove_raises env f of
        None \<Rightarrow> [''Removed: '' @ f]
      | Some (Exn msg) \<Rightarrow> [''Warning: Could not remove '' @ f @ '': '' @ msg]
      | Some (Unprintable e') \<Rightarrow> []
      | Some (BaseExn msg) \<Rightarrow> [])"

definition remove_escape :: "env \<Rightarrow> string \<Rightarrow> exn option" where
  "remove_escape env f =
     (case remove_raises env f of
        None \<Rightarrow> None
      | Some (Exn msg) \<Rightarrow> None
      | Some (Unprintable e') \<Rightarrow> Some e'
      | Some (BaseExn msg) \<Rightarrow> Some (BaseExn msg))"

definition remove_escapes :: "env \<Rightarrow> string \<Rightarrow> bool" where
  "remove_escapes env f = (remove_escape env f \<noteq> None)"

text \<open>One round of the cleanup loop.\<close>

definition after_remove :: "env \<Rightarrow> string \<Rightarrow> state \<Rightarrow> state" where
  "after_remove env f st =
     st\<lparr>events := events st @ [OsRemove (STL_DIR, f)],
        dirs := (if remove_raises env f = None
                 then (dirs st)(STL_DIR := map_option (filter (\<lambda>entry. fst entry \<noteq> f))
                                             (dirs st STL_DIR))
                 else dirs st),
        console := console st @ remove_lines env f\<rparr>"

fun cleanup_escape :: "env \<Rightarrow> string list \<Rightarrow> exn option" where
  "cleanup_escape env [] = None"
| "cleanup_escape env (f # fs) =
     (case remove_escape env f of Some e \<Rightarrow> Some e | None \<Rightarrow> cleanup_escape env fs)"

text \<open>The files the cleanup loop gets to: none when an exception ended the conversion
  loop, else the converted files through the first one whose \<^verbatim>\<open>os.remove\<close> raises what
  the loop does not contain.\<close>

definition cleanup_attempted :: "env \<Rightarrow> string list \<Rightarrow> string list" where
  "cleanup_attempted env files =
     (if loop_escape env files = None
      then through_first (remove_escapes env) (filter (succeeds env) files) else [])"

text \<open>A run in which every exception is contained: none leaves a conversion, none
  leaves the cleanup loop.\<close>

definition contained :: "env \<Rightarrow> string list \<Rightarrow> bool" where
  "contained env files =
     (list_all (\<lambda>f. \<not> escapes env f) files
      \<and> list_all (\<lambda>f. \<not> remove_escapes env f) (filter (succeeds env) files))"

definition header_lines :: "string list" where
  "header_lines = [banner, ''STL to STEP Converter'', banner]"

definition found_lines :: "string list \<Rightarrow> string list" where
  "found_lines files =
     (CHR 0x0A # ''Found '' @ str_int (int (length files)) @ '' STL file(s) to process:'')
       # map (\<lambda>f. ''  - '' @ f) files @ [[]]"

text \<open>The state once both directories exist.\<close>

definition with_directories :: "state \<Rightarrow> state" where
  "with_directories st =
     st\<lparr>dirs := (\<lambda>d. Some (case dirs st d of None \<Rightarrow> [] | Some entries \<Rightarrow> entries))\<rparr>"

text \<open>The names in a directory, and the name of the output file of \<open>f\<close>.\<close>

definition names :: "state \<Rightarrow> dir_id \<Rightarrow> string list" where
  "names st d = (case dirs st d of None \<Rightarrow> [] | Some entries \<Rightarrow> map fst entries)"

definition step_name :: "string \<Rightarrow> string" where
  "step_name f = snd (step_path f)"

definition add_name :: "string \<Rightarrow> string list \<Rightarrow> string list" where
  "add_name n ns = (if n \<in> set ns then ns else ns @ [n])"

text \<open>What can be observed of a run of \<open>main\<close> that returns: the console, the log, the
  names in a directory, and how many entries of a directory carry a given name. These
  are \<open>None\<close> for a run that an exception ended; \<open>uncaught\<close> is that exception, and
  \<open>final_state\<close> the state in which the run ended, one way or the other.\<close>

definition uncaught :: "(exn \<times> state) + state \<Rightarrow> exn option" where
  "uncaught r = (case r of Inl (e, st) \<Rightarrow> Some e | Inr st \<Rightarrow> None)"

definition final_state :: "(exn \<times> state) + state \<Rightarrow> state" where
  "final_state r = (case r of Inl (e, st) \<Rightarrow> st | Inr st \<Rightarrow> st)"

definition result_console :: "(exn \<times> state) + state \<Rightarrow> string list option" where
  "result_console r = (case r of Inl e \<Rightarrow> None | Inr st \<Rightarrow> Some (console st))"

definition result_events :: "(exn \<times> state) + state \<Rightarrow> event list option" where
  "result_events r = (case r of Inl e \<Rightarrow> None | Inr st \<Rightarrow> Some (events st))"

definition result_names :: "dir_id \<Rightarrow> (exn \<times> state) + state \<Rightarrow> string list option" where
  "result_names d r = (case r of Inl e \<Rightarrow> None | Inr st \<Rightarrow> Some (names st d))"

definition result_count :: "dir_id \<Rightarrow> string \<Rightarrow> (exn \<times> state) + state \<Rightarrow> nat option" where
  "result_count d n r =
     (case r of Inl e \<Rightarrow> None | Inr st \<Rightarrow> Some (count_list (names st d) n))"

definition result_printed :: "string \<Rightarrow> (exn \<times> state) + state \<Rightarrow> bool" where
  "result_printed line r = (case r of Inl e \<Rightarrow> False | Inr st \<Rightarrow> line \<in> set (console st))"

text \<open>The last seven lines printed: the summary, when there is one.\<close>

definition result_summary :: "(exn \<times> state) + state \<Rightarrow> string list option" where
  "result_summary r =
     (case r of Inl e \<Rightarrow> None
      | Inr st \<Rightarrow> Some (drop (length (console st) - 7) (console st)))"

text \<open>The paths \<^verbatim>\<open>os.remove\<close> was called on, in order.\<close>

fun removals :: "event list \<Rightarrow> path list" where
  "removals [] = []"
| "removals (LibCall f c # evs) = removals evs"
| "removals (OsRemove p # evs) = p # removals evs"

text \<open>The files whose conversion is begun (first library call at line 52), in order.\<close>

fun attempts :: "event list \<Rightarrow> string list" where
  "attempts [] = []"
| "attempts (LibCall f c # evs) = (if c = ImportFreeCAD then f # attempts evs else attempts evs)"
| "attempts (OsRemove p # evs) = attempts evs"

fun is_lib_call :: "event \<Rightarrow> bool" where
  "is_lib_call (LibCall f c) = True"
| "is_lib_call (OsRemove p) = False"

definition result_removals :: "(exn \<times> state) + state \<Rightarrow> path list option" where
  "result_removals r = (case r of Inl e \<Rightarrow> None | Inr st \<Rightarrow> Some (removals (events st)))"

text \<open>The library calls made while the files are converted, in order.\<close>

definition conversion_events :: "env \<Rightarrow> string list \<Rightarrow> event list" where
  "conversion_events env files =
     concat (map (\<lambda>f. map (LibCall f) (calls_made env f (all_calls env f))) files)"

text \<open>The state after the conversion loop, whether it ran to its end or an exception
  ended it, and after the cleanup loop, when the directories can be created.\<close>

definition loop_state :: "env \<Rightarrow> state \<Rightarrow> state" where
  "loop_state env st0 =
     after_conversions env (attempted env (get_stl_files st0))
       (print_all (found_lines (get_stl_files st0))
          (with_directories (print_all header_lines st0)))"

definition cleanup_state :: "env \<Rightarrow> state \<Rightarrow> state" where
  "cleanup_state env st0 =
     snd (remove_all env (filter (succeeds env) (get_stl_files st0))
            (print [] (loop_state env st0)))"

text \<open>The state in which \<open>main\<close> ends when the directories can be created and every
  exception is contained.\<close>

definition run_state :: "env \<Rightarrow> state \<Rightarrow> state" where
  "run_state env st0 =
     (let files = get_stl_files st0;
          st1 = with_directories (print_all header_lines st0)
      in if files = [] then print_all (no_files_lines env) st1
         else print_all
                (summary_lines env (int (length (filter (succeeds env) files)))
                   (int (length (filter (\<lambda>f. \<not> succeeds env f) files))))
                (snd (remove_all env (filter (succeeds env) files)
                        (print [] (after_conversions env files
                                     (print_all (found_lines files) st1))))))"

section \<open>Example runs\<close>

text \<open>A start with the given input directory, no output directory, nothing printed.\<close>

definition initial_state :: "dir option \<Rightarrow> state" where
  "initial_state stl =
     \<lparr>dirs = (\<lambda>d. case d of STL_DIR \<Rightarrow> stl | STEP_DIR \<Rightarrow> None), console = [], events = []\<rparr>"

text \<open>Nothing raises.\<close>

definition env_ok :: env where
  "env_ok = \<lparr>stl_dir_path = ''/work/stl_files'', step_dir_path = ''/work/step_files'',
             makedirs_raises = (\<lambda>d. None), lib_raises = (\<lambda>f c. None),
             shape_is_valid = (\<lambda>f. True), export_leaves_file = (\<lambda>f. False),
             remove_raises = (\<lambda>f. None)\<rparr>"

text \<open>\<^verbatim>\<open>Mesh.insert\<close> raises on \<^verbatim>\<open>broken.stl\<close>.\<close>

definition env_broken :: env where
  "env_broken =
     env_ok\<lparr>lib_raises := (\<lambda>f c. if f = ''broken.stl'' \<and> c = MeshInsert
                                   then Some (Exn ''not a valid mesh'') else None)\<rparr>"

text \<open>\<^verbatim>\<open>FreeCAD.closeDocument\<close> raises, after the export.\<close>

definition env_close_fails :: env where
  "env_close_fails =
     env_ok\<lparr>lib_raises := (\<lambda>f c. if c = CloseDocument
                                   then Some (Exn ''document cannot be closed'') else None)\<rparr>"

text \<open>The user interrupts the run while \<^verbatim>\<open>Mesh.insert\<close> works on \<^verbatim>\<open>broken.stl\<close>.\<close>

definition env_interrupt :: env where
  "env_interrupt =
     env_ok\<lparr>lib_raises := (\<lambda>f c. if f = ''broken.stl'' \<and> c = MeshInsert
                                   then Some (BaseExn ''KeyboardInterrupt'') else None)\<rparr>"

text \<open>\<^verbatim>\<open>os.remove\<close> raises.\<close>

definition env_remove_fails :: env where
  "env_remove_fails = env_ok\<lparr>remove_raises := (\<lambda>f. Some (Exn ''Permission denied''))\<rparr>"

text \<open>The user interrupts the run while \<^verbatim>\<open>os.remove\<close> works.\<close>

definition env_remove_interrupted :: env where
  "env_remove_interrupted =
     env_ok\<lparr>remove_raises := (\<lambda>f. Some (BaseExn ''KeyboardInterrupt''))\<rparr>"

definition scenario_dir :: dir where
  "scenario_dir = [(''sphere.STL'', Regular), (''readme.txt'', Regular), (''cube.stl'', Regular)]"

definition cube_dir :: dir where
  "cube_dir = [(''cube.stl'', Regular)]"

definition batch_dir :: dir where
  "batch_dir = [(''cube.stl'', Regular), (''broken.stl'', Regular)]"

definition pair_dir :: dir where
  "pair_dir = [(''cube.stl'', Regular), (''ball.stl'', Regular)]"

definition empty_dir :: dir where
  "empty_dir = []"

definition subdir_dir :: dir where
  "subdir_dir = [(''models.stl'', Subdir)]"

section \<open>Facts about the model\<close>

subsection \<open>Strings, call sequences and the two loops\<close>

lemma lower_char_dot: "lower_char c = CHR ''.'' \<longleftrightarrow> c = CHR ''.''"
  by (auto simp: lower_char_def ascii_uppercase_def ascii_lowercase_def split: if_splits)

lemma lower_char_s: "lower_char c = CHR ''s'' \<longleftrightarrow> c = CHR ''s'' \<or> c = CHR ''S''"
  by (auto simp: lower_char_def ascii_uppercase_def ascii_lowercase_def split: if_splits)

lemma lower_char_t: "lower_char c = CHR ''t'' \<longleftrightarrow> c = CHR ''t'' \<or> c = CHR ''T''"
  by (auto simp: lower_char_def ascii_uppercase_def ascii_lowercase_def split: if_splits)

lemma lower_char_l: "lower_char c = CHR ''l'' \<longleftrightarrow> c = CHR ''l'' \<or> c = CHR ''L''"
  by (auto simp: lower_char_def ascii_uppercase_def ascii_lowercase_def split: if_splits)

lemma drop_last4:
  assumes "4 \<le> length s"
  shows "drop (length s - 4) s =
           [s ! (length s - 4), s ! (length s - 3), s ! (length s - 2), s ! (length s - 1)]"
proof (rule nth_equalityI)
  show "length (drop (length s - 4) s) =
        length [s ! (length s - 4), s ! (length s - 3), s ! (length s - 2), s ! (length s - 1)]"
    using assms by simp
next
  fix i assume "i < length (drop (length s - 4) s)"
  then have "i < 4" using assms by simp
  then consider "i = 0" | "i = 1" | "i = 2" | "i = 3" by linarith
  then show "drop (length s - 4) s ! i =
        [s ! (length s - 4), s ! (length s - 3), s ! (length s - 2), s ! (length s - 1)] ! i"
  proof cases
    case 1 then show ?thesis using assms by simp
  next
    case 2
    have "length s - 4 + 1 = length s - 3" using assms by linarith
    with 2 show ?thesis using assms by simp
  next
    case 3
    have "length s - 4 + 2 = length s - 2" using assms by linarith
    with 3 show ?thesis using assms by simp
  next
    case 4
    have "length s - 4 + 3 = length s - 1" using assms by linarith
    with 4 show ?thesis using assms by (simp add: numeral_3_eq_3)
  qed
qed

lemma endswith_lower_stl: "endswith (lower f) ''.stl'' = has_stl_suffix f"
proof (cases "4 \<le> length f")
  case False
  then show ?thesis by (simp add: endswith_def has_stl_suffix_def lower_def)
next
  case True
  then have len: "4 \<le> length (lower f)" by (simp add: lower_def)
  have d: "drop (length (lower f) - 4) (lower f) =
          [lower_char (f ! (length f - 4)), lower_char (f ! (length f - 3)),
           lower_char (f ! (length f - 2)), lower_char (f ! (length f - 1))]"
    using drop_last4 [OF len] True by (simp add: lower_def)
  have l4: "length ''.stl'' = (4::nat)" by simp
  have "endswith (lower f) ''.stl'' \<longleftrightarrow> drop (length (lower f) - 4) (lower f) = ''.stl''"
    unfolding endswith_def l4 using len by simp
  also have "\<dots> \<longleftrightarrow> has_stl_suffix f"
    unfolding d has_stl_suffix_def using True
    by (simp add: lower_char_dot lower_char_s lower_char_t lower_char_l)
  finally show ?thesis .
qed

lemma rfind_absent: "c \<notin> set p \<Longrightarrow> rfind p c = -1"
proof -
  assume "c \<notin> set p"
  then have "filter (\<lambda>i. p ! i = c) (rev [0..<length p]) = []"
    by (auto simp: filter_empty_conv)
  then show ?thesis by (simp add: rfind_def)
qed

lemma rfind_last:
  assumes "i < length p" and "p ! i = c"
    and "\<And>j. i < j \<Longrightarrow> j < length p \<Longrightarrow> p ! j \<noteq> c"
  shows "rfind p c = int i"
proof -
  have "[0..<length p] = [0..<i] @ i # [Suc i..<length p]"
  proof -
    have "[0..<i + (length p - i)] = [0..<i] @ [i..<i + (length p - i)]"
      by (rule upt_add_eq_append) simp
    moreover have "i + (length p - i) = length p" using assms(1) by simp
    ultimately have "[0..<length p] = [0..<i] @ [i..<length p]" by simp
    then show ?thesis using assms(1) by (simp add: upt_conv_Cons)
  qed
  then have "rev [0..<length p] = rev [Suc i..<length p] @ i # rev [0..<i]"
    by simp
  moreover have "filter (\<lambda>j. p ! j = c) (rev [Suc i..<length p]) = []"
    using assms(3) by (auto simp: filter_empty_conv)
  ultimately have "filter (\<lambda>j. p ! j = c) (rev [0..<length p]) =
                     i # filter (\<lambda>j. p ! j = c) (rev [0..<i])"
    using assms(2) by simp
  then show ?thesis by (simp add: rfind_def)
qed

lemma skip_leading_dots_iff:
  "skip_leading_dots p a b \<longleftrightarrow> (\<exists>i. a \<le> i \<and> i < b \<and> p ! i \<noteq> CHR ''.'')"
proof (induction p a b rule: skip_leading_dots.induct)
  case (1 p a b)
  show ?case
  proof (cases "a < b")
    case False
    then have "\<not> skip_leading_dots p a b"
      by (subst skip_leading_dots.simps) simp
    moreover from False have "\<not> (\<exists>i. a \<le> i \<and> i < b \<and> p ! i \<noteq> CHR ''.'')"
      by auto
    ultimately show ?thesis by blast
  next
    case True
    show ?thesis
    proof (cases "p ! a \<noteq> CHR ''.''")
      case nondot: True
      with \<open>a < b\<close> have "skip_leading_dots p a b"
        by (subst skip_leading_dots.simps) simp
      moreover from nondot \<open>a < b\<close> have "\<exists>i. a \<le> i \<and> i < b \<and> p ! i \<noteq> CHR ''.''"
        by blast
      ultimately show ?thesis by blast
    next
      case dot: False
      then have "skip_leading_dots p a b = skip_leading_dots p (a + 1) b"
        using \<open>a < b\<close> by (subst skip_leading_dots.simps) simp
      also have "\<dots> \<longleftrightarrow> (\<exists>i. a + 1 \<le> i \<and> i < b \<and> p ! i \<noteq> CHR ''.'')"
        using "1.IH" \<open>a < b\<close> dot by simp
      also have "\<dots> \<longleftrightarrow> (\<exists>i. a \<le> i \<and> i < b \<and> p ! i \<noteq> CHR ''.'')"
      proof
        assume "\<exists>i. a + 1 \<le> i \<and> i < b \<and> p ! i \<noteq> CHR ''.''"
        then obtain i where "a + 1 \<le> i" "i < b" "p ! i \<noteq> CHR ''.''" by blast
        then have "a \<le> i \<and> i < b \<and> p ! i \<noteq> CHR ''.''" by simp
        then show "\<exists>i. a \<le> i \<and> i < b \<and> p ! i \<noteq> CHR ''.''" by blast
      next
        assume "\<exists>i. a \<le> i \<and> i < b \<and> p ! i \<noteq> CHR ''.''"
        then obtain i where i: "a \<le> i" "i < b" "p ! i \<noteq> CHR ''.''" by blast
        with dot have "i \<noteq> a" by auto
        with i have "a + 1 \<le> i \<and> i < b \<and> p ! i \<noteq> CHR ''.''" by simp
        then show "\<exists>i. a + 1 \<le> i \<and> i < b \<and> p ! i \<noteq> CHR ''.''" by blast
      qed
      finally show ?thesis .
    qed
  qed
qed

lemma exists_take_nth:
  assumes "k \<le> length f"
  shows "(\<exists>c \<in> set (take k f). P c) \<longleftrightarrow> (\<exists>i. 0 \<le> i \<and> i < k \<and> P (f ! i))"
proof
  assume "\<exists>c \<in> set (take k f). P c"
  then obtain c where "c \<in> set (take k f)" "P c" by blast
  then obtain i where "i < length (take k f)" "take k f ! i = c"
    by (auto simp: in_set_conv_nth)
  with assms \<open>P c\<close> have "0 \<le> i \<and> i < k \<and> P (f ! i)" by simp
  then show "\<exists>i. 0 \<le> i \<and> i < k \<and> P (f ! i)" by blast
next
  assume "\<exists>i. 0 \<le> i \<and> i < k \<and> P (f ! i)"
  then obtain i where i: "i < k" "P (f ! i)" by blast
  with assms have "take k f ! i = f ! i" "i < length (take k f)" by simp_all
  then have "f ! i \<in> set (take k f)" by (metis nth_mem)
  with i show "\<exists>c \<in> set (take k f). P c" by blast
qed

lemma splitext_stl:
  assumes stl: "has_stl_suffix f" and nosep: "CHR ''/'' \<notin> set f"
  shows "fst (splitext f) =
           (if \<exists>c \<in> set (take (length f - 4) f). c \<noteq> CHR ''.''
            then take (length f - 4) f else f)"
proof -
  define k where "k = length f - 4"
  from stl have len: "4 \<le> length f" by (simp add: has_stl_suffix_def)
  from stl have dot: "f ! k = CHR ''.''" by (simp add: has_stl_suffix_def k_def)
  from stl have a: "f ! (length f - 3) \<noteq> CHR ''.''" by (auto simp: has_stl_suffix_def)
  from stl have b: "f ! (length f - 2) \<noteq> CHR ''.''" by (auto simp: has_stl_suffix_def)
  from stl have c: "f ! (length f - 1) \<noteq> CHR ''.''" by (auto simp: has_stl_suffix_def)
  have klt: "k < length f" using len by (simp add: k_def)
  have after: "f ! j \<noteq> CHR ''.''" if "k < j" "j < length f" for j
  proof -
    from that len have "j = length f - 3 \<or> j = length f - 2 \<or> j = length f - 1"
      unfolding k_def by linarith
    with a b c show ?thesis by blast
  qed
  have rdot: "rfind f CHR ''.'' = int k"
    using klt dot after by (rule rfind_last)
  have rsep: "rfind f CHR ''/'' = -1"
    using nosep by (rule rfind_absent)
  have ex: "(\<exists>c \<in> set (take k f). c \<noteq> CHR ''.'') \<longleftrightarrow> skip_leading_dots f 0 k"
    unfolding skip_leading_dots_iff using klt by (intro exists_take_nth) simp
  have "splitext f = (if skip_leading_dots f 0 k then (take k f, drop k f) else (f, []))"
    unfolding splitext_def Let_def rdot rsep by simp
  then have "fst (splitext f) =
           (if \<exists>c \<in> set (take k f). c \<noteq> CHR ''.'' then take k f else f)"
    unfolding ex by simp
  then show ?thesis
    unfolding k_def .
qed

lemma first_raise_append:
  "first_raise env f (xs @ ys) =
     (case first_raise env f xs of Some e \<Rightarrow> Some e | None \<Rightarrow> first_raise env f ys)"
  by (induction xs) (auto split: option.splits)

lemma calls_made_append:
  "calls_made env f (xs @ ys) =
     calls_made env f xs @
     (case first_raise env f xs of Some e \<Rightarrow> [] | None \<Rightarrow> calls_made env f ys)"
  by (induction xs) (auto split: option.splits)

lemma run_calls_eq:
  "run_calls env f cs st =
     (first_raise env f cs, st\<lparr>events := events st @ map (LibCall f) (calls_made env f cs)\<rparr>)"
  by (induction cs arbitrary: st) (auto split: option.splits simp: Let_def)

lemma except_handler_eq:
  "except_handler f e st = (handled e, st\<lparr>console := console st @ handler_lines f e\<rparr>)"
  by (cases e) (simp_all add: except_handler_def print_def error_line_def)

lemma convert_stl_to_step_eq:
  "convert_stl_to_step env f st =
     (outcome_of env f,
      (if wrote env f then write_file (step_path f) st else st)
        \<lparr>console := console st @ convert_lines env f,
         events := events st @ map (LibCall f) (calls_made env f (all_calls env f))\<rparr>)"
  unfolding convert_stl_to_step_def import_calls_def [symmetric] mesh_calls_def [symmetric]
    solid_call_def [symmetric]
  by (simp add: run_calls_eq except_handler_eq print_def
        outcome_of_def wrote_def reached_export_def raised_def all_calls_def
        calls_to_export_def calls_before_export_def first_raise_append calls_made_append
        convert_lines_def write_file_def step_path_def
        os_path_join_def Let_def split: option.splits)

lemma print_simps:
  "console (print l st) = console st @ [l]"
  "events (print l st) = events st"
  "dirs (print l st) = dirs st"
  by (simp_all add: print_def)

lemma print_all_simps:
  "console (print_all ls st) = console st @ ls"
  "events (print_all ls st) = events st"
  "dirs (print_all ls st) = dirs st"
  by (induction ls arbitrary: st) (simp_all add: print_simps)

lemma write_file_simps:
  "console (write_file p st) = console st"
  "events (write_file p st) = events st"
  by (auto simp: write_file_def split: prod.splits option.splits)

lemma convert_fst: "fst (convert_stl_to_step env f st) = outcome_of env f"
  by (simp add: convert_stl_to_step_eq)

lemma convert_console:
  "console (snd (convert_stl_to_step env f st)) = console st @ convert_lines env f"
  by (simp add: convert_stl_to_step_eq)

lemma convert_events:
  "events (snd (convert_stl_to_step env f st)) =
     events st @ map (LibCall f) (calls_made env f (all_calls env f))"
  by (simp add: convert_stl_to_step_eq)

lemma convert_dirs:
  "dirs (snd (convert_stl_to_step env f st)) =
     (if wrote env f then dirs (write_file (step_path f) st) else dirs st)"
  by (simp add: convert_stl_to_step_eq)

lemma outcome_of_cases:
  "outcome_of env f = Returned True \<longleftrightarrow> succeeds env f"
  "outcome_of env f = Returned False \<longleftrightarrow> fails env f"
  "(\<exists>e. outcome_of env f = Raised e) \<longleftrightarrow> escapes env f"
  "outcome_of env f = Raised e \<longleftrightarrow> escape env f = Some e"
proof -
  have h: "handled x \<noteq> Returned True" for x by (cases x) simp_all
  show "outcome_of env f = Returned True \<longleftrightarrow> succeeds env f"
    by (simp add: outcome_of_def succeeds_def h split: option.splits)
  show "outcome_of env f = Returned False \<longleftrightarrow> fails env f"
    by (simp add: fails_def)
  show "(\<exists>e. outcome_of env f = Raised e) \<longleftrightarrow> escapes env f"
    by (simp add: escapes_def escape_def split: outcome.splits)
  show "outcome_of env f = Raised e \<longleftrightarrow> escape env f = Some e"
    by (auto simp: escape_def split: outcome.splits)
qed

lemma outcome_exclusive:
  "succeeds env f \<Longrightarrow> \<not> fails env f"
  "succeeds env f \<Longrightarrow> \<not> escapes env f"
  "fails env f \<Longrightarrow> \<not> escapes env f"
  "\<not> escapes env f \<Longrightarrow> fails env f \<longleftrightarrow> \<not> succeeds env f"
proof -
  show "succeeds env f \<Longrightarrow> \<not> fails env f"
    unfolding outcome_of_cases [symmetric] by simp
  show "succeeds env f \<Longrightarrow> \<not> escapes env f"
    unfolding outcome_of_cases [symmetric] by simp
  show "fails env f \<Longrightarrow> \<not> escapes env f"
    unfolding outcome_of_cases [symmetric] by simp
  show "\<not> escapes env f \<Longrightarrow> fails env f \<longleftrightarrow> \<not> succeeds env f"
    unfolding outcome_of_cases(1-3) [symmetric]
    by (cases "outcome_of env f") auto
qed

lemma through_first_all: "list_all (\<lambda>x. \<not> P x) xs \<Longrightarrow> through_first P xs = xs"
  by (induction xs) simp_all

lemma attempted_all: "list_all (\<lambda>f. \<not> escapes env f) fs \<Longrightarrow> attempted env fs = fs"
  unfolding attempted_def by (rule through_first_all)

lemma loop_escape_None:
  "list_all (\<lambda>f. \<not> escapes env f) fs \<Longrightarrow> loop_escape env fs = None"
  by (induction fs) (simp_all add: escapes_def)

lemma loop_escape_None_iff:
  "loop_escape env fs = None \<longleftrightarrow> list_all (\<lambda>f. \<not> escapes env f) fs"
  by (induction fs) (auto simp: escapes_def split: option.splits)

lemma after_conversions_Cons:
  "after_conversions env (f # fs) st =
     after_conversions env fs (snd (convert_stl_to_step env f st))"
  by (simp add: after_conversions_def)

text \<open>The conversion loop, in every case: the files it gets to, how they are counted,
  and the exception that ends it.\<close>

lemma convert_all_eq:
  "convert_all env fs (s, fl, rm, st) =
     (loop_escape env fs,
      s + int (length (filter (succeeds env) (attempted env fs))),
      fl + int (length (filter (fails env) (attempted env fs))),
      rm @ filter (succeeds env) (attempted env fs),
      after_conversions env (attempted env fs) st)"
proof (induction fs arbitrary: s fl rm st)
  case Nil
  then show ?case by (simp add: after_conversions_def attempted_def)
next
  case (Cons f fs)
  obtain r st' where c: "convert_stl_to_step env f st = (r, st')"
    by (cases "convert_stl_to_step env f st")
  then have r: "r = outcome_of env f"
    using convert_fst [of env f st] by simp
  have st': "st' = snd (convert_stl_to_step env f st)"
    by (simp add: c)
  show ?case
  proof (cases r)
    case (Returned b)
    show ?thesis
    proof (cases b)
      case True
      with Returned r have o: "outcome_of env f = Returned True" by simp
      then have su: "succeeds env f" by (simp add: outcome_of_cases)
      then have nf: "\<not> fails env f" and ne: "\<not> escapes env f"
        by (simp_all add: outcome_exclusive)
      from ne have esc: "escape env f = None" by (simp add: escapes_def)
      have att: "attempted env (f # fs) = f # attempted env fs"
        using ne by (simp add: attempted_def)
      have "convert_all env (f # fs) (s, fl, rm, st) =
              convert_all env fs (s + 1, fl, rm @ [f], st')"
        using Returned True by (simp add: c)
      then show ?thesis
        unfolding Cons.IH att after_conversions_Cons st' using su nf esc by simp
    next
      case False
      with Returned r have o: "outcome_of env f = Returned False" by simp
      then have fa: "fails env f" by (simp add: outcome_of_cases)
      then have ne: "\<not> escapes env f" by (simp add: outcome_exclusive)
      with fa have ns: "\<not> succeeds env f" by (simp add: outcome_exclusive)
      from ne have esc: "escape env f = None" by (simp add: escapes_def)
      have att: "attempted env (f # fs) = f # attempted env fs"
        using ne by (simp add: attempted_def)
      have "convert_all env (f # fs) (s, fl, rm, st) =
              convert_all env fs (s, fl + 1, rm, st')"
        using Returned False by (simp add: c)
      then show ?thesis
        unfolding Cons.IH att after_conversions_Cons st' using fa ns esc by simp
    qed
  next
    case (Raised e)
    with r have o: "outcome_of env f = Raised e" by simp
    then have esc: "escape env f = Some e" by (simp add: outcome_of_cases)
    then have es: "escapes env f" by (simp add: escapes_def)
    then have ns: "\<not> succeeds env f" and nf: "\<not> fails env f"
      using outcome_exclusive [of env f] by blast+
    have att: "attempted env (f # fs) = [f]"
      using es by (simp add: attempted_def)
    have "convert_all env (f # fs) (s, fl, rm, st) = (Some e, s, fl, rm, st')"
      using Raised by (simp add: c)
    then show ?thesis
      unfolding att st' using ns nf esc by (simp add: after_conversions_def)
  qed
qed

lemma after_conversions_console:
  "console (after_conversions env fs st) = console st @ concat (map (convert_lines env) fs)"
  by (induction fs arbitrary: st) (simp_all add: after_conversions_def convert_console)

lemma after_conversions_events:
  "events (after_conversions env fs st) =
     events st @ concat (map (\<lambda>f. map (LibCall f) (calls_made env f (all_calls env f))) fs)"
  by (induction fs arbitrary: st) (simp_all add: after_conversions_def convert_events)

lemma dirs_write_file:
  "dirs (write_file (d, n) st) =
     (case dirs st d of
        None \<Rightarrow> dirs st
      | Some es \<Rightarrow> if n \<in> set (map fst es) then dirs st
                   else (dirs st)(d := Some (es @ [(n, Regular)])))"
  by (simp add: write_file_def split: option.splits)

lemma write_file_dirs_cong:
  assumes "dirs s1 = dirs s2"
  shows "dirs (write_file p s1) = dirs (write_file p s2)"
proof (cases p)
  case (Pair d n)
  show ?thesis unfolding Pair dirs_write_file assms ..
qed

lemma fold_write_file_dirs_cong:
  "dirs s1 = dirs s2 \<Longrightarrow> dirs (fold write_file ps s1) = dirs (fold write_file ps s2)"
proof (induction ps arbitrary: s1 s2)
  case Nil
  then show ?case by simp
next
  case (Cons p ps)
  from Cons.prems have "dirs (write_file p s1) = dirs (write_file p s2)"
    by (rule write_file_dirs_cong)
  then have "dirs (fold write_file ps (write_file p s1)) = dirs (fold write_file ps (write_file p s2))"
    by (rule Cons.IH)
  then show ?case by simp
qed

lemma after_conversions_dirs:
  "dirs (after_conversions env fs st) =
     dirs (fold write_file (map step_path (filter (wrote env) fs)) st)"
proof (induction fs arbitrary: st)
  case Nil
  then show ?case by (simp add: after_conversions_def)
next
  case (Cons f fs)
  let ?st1 = "snd (convert_stl_to_step env f st)"
  let ?ps = "map step_path (filter (wrote env) fs)"
  have step: "dirs (after_conversions env (f # fs) st) = dirs (fold write_file ?ps ?st1)"
    unfolding after_conversions_Cons by (rule Cons.IH)
  show ?case
  proof (cases "wrote env f")
    case True
    then have "dirs ?st1 = dirs (write_file (step_path f) st)"
      by (simp only: convert_dirs if_True)
    then have "dirs (fold write_file ?ps ?st1) =
               dirs (fold write_file ?ps (write_file (step_path f) st))"
      by (rule fold_write_file_dirs_cong)
    also have "\<dots> = dirs (fold write_file (map step_path (filter (wrote env) (f # fs))) st)"
      using True by simp
    finally show ?thesis using step by simp
  next
    case False
    then have "dirs ?st1 = dirs st"
      by (simp only: convert_dirs if_False)
    then have "dirs (fold write_file ?ps ?st1) = dirs (fold write_file ?ps st)"
      by (rule fold_write_file_dirs_cong)
    also have "\<dots> = dirs (fold write_file (map step_path (filter (wrote env) (f # fs))) st)"
      using False by simp
    finally show ?thesis using step by simp
  qed
qed

lemma os_remove_eq:
  "os_remove env (STL_DIR, f) st =
     (remove_raises env f,
      st\<lparr>events := events st @ [OsRemove (STL_DIR, f)],
         dirs := (if remove_raises env f = None
                  then (dirs st)(STL_DIR := map_option (filter (\<lambda>entry. fst entry \<noteq> f))
                                              (dirs st STL_DIR))
                  else dirs st)\<rparr>)"
  by (simp add: os_remove_def Let_def split: option.splits)

lemma remove_all_Cons:
  "remove_all env (f # fs) st =
     (case remove_escape env f of
        Some e \<Rightarrow> (Some e, after_remove env f st)
      | None \<Rightarrow> remove_all env fs (after_remove env f st))"
  by (simp add: os_remove_eq os_path_join_def print_def remove_lines_def remove_escape_def
        after_remove_def Let_def split: option.splits exn.splits)

lemma after_remove_simps:
  "console (after_remove env f st) = console st @ remove_lines env f"
  "events (after_remove env f st) = events st @ [OsRemove (STL_DIR, f)]"
  "dirs (after_remove env f st) STEP_DIR = dirs st STEP_DIR"
  "dirs (after_remove env f st) STL_DIR =
     (if remove_raises env f = None
      then map_option (filter (\<lambda>entry. fst entry \<noteq> f)) (dirs st STL_DIR)
      else dirs st STL_DIR)"
  by (simp_all add: after_remove_def)

lemma remove_all_fst: "fst (remove_all env fs st) = cleanup_escape env fs"
  by (induction fs arbitrary: st)
     (simp_all add: remove_all_Cons del: remove_all.simps(2) split: option.splits)

lemma remove_all_console:
  "console (snd (remove_all env fs st)) =
     console st @ concat (map (remove_lines env) (through_first (remove_escapes env) fs))"
  by (induction fs arbitrary: st)
     (simp_all add: remove_all_Cons after_remove_simps remove_escapes_def
        del: remove_all.simps(2) split: option.splits)

lemma remove_all_events:
  "events (snd (remove_all env fs st)) =
     events st @ map (\<lambda>f. OsRemove (STL_DIR, f)) (through_first (remove_escapes env) fs)"
  by (induction fs arbitrary: st)
     (simp_all add: remove_all_Cons after_remove_simps remove_escapes_def
        del: remove_all.simps(2) split: option.splits)

lemma remove_all_step_dir:
  "dirs (snd (remove_all env fs st)) STEP_DIR = dirs st STEP_DIR"
  by (induction fs arbitrary: st)
     (simp_all add: remove_all_Cons after_remove_simps
        del: remove_all.simps(2) split: option.splits)

lemma remove_all_stl_dir:
  "dirs (snd (remove_all env fs st)) STL_DIR =
     map_option (filter (\<lambda>entry. \<not> (fst entry \<in> set (through_first (remove_escapes env) fs)
                                       \<and> remove_raises env (fst entry) = None)))
       (dirs st STL_DIR)"
proof (induction fs arbitrary: st)
  case Nil
  then show ?case by (cases "dirs st STL_DIR") simp_all
next
  case (Cons f fs)
  let ?keep = "\<lambda>gs entry. \<not> (fst entry \<in> set gs \<and> remove_raises env (fst entry) = None)"
  let ?tf = "through_first (remove_escapes env)"
  show ?case
  proof (cases "remove_raises env f")
    case None
    then have ne: "remove_escape env f = None" "\<not> remove_escapes env f"
      by (simp_all add: remove_escape_def remove_escapes_def)
    have "dirs (snd (remove_all env (f # fs) st)) STL_DIR =
          map_option (filter (?keep (?tf fs)))
            (map_option (filter (\<lambda>entry. fst entry \<noteq> f)) (dirs st STL_DIR))"
      using None ne by (simp add: remove_all_Cons Cons.IH after_remove_simps del: remove_all.simps(2))
    also have "\<dots> = map_option (filter (?keep (?tf (f # fs)))) (dirs st STL_DIR)"
    proof (cases "dirs st STL_DIR")
      case (Some es)
      have "filter (?keep (?tf fs)) (filter (\<lambda>entry. fst entry \<noteq> f) es) =
            filter (?keep (?tf (f # fs))) es"
        unfolding filter_filter using None ne by (intro filter_cong refl) auto
      with Some show ?thesis by simp
    qed simp
    finally show ?thesis .
  next
    case (Some e)
    have keep: "filter (?keep gs) es = filter (?keep (f # gs)) es" for gs es
      using Some by (intro filter_cong refl) auto
    show ?thesis
    proof (cases "remove_escape env f")
      case None
      then have ne: "\<not> remove_escapes env f" by (simp add: remove_escapes_def)
      have "dirs (snd (remove_all env (f # fs) st)) STL_DIR =
            map_option (filter (?keep (?tf fs))) (dirs st STL_DIR)"
        using Some None by (simp add: remove_all_Cons Cons.IH after_remove_simps del: remove_all.simps(2))
      also have "\<dots> = map_option (filter (?keep (?tf (f # fs)))) (dirs st STL_DIR)"
        using ne keep [of "?tf fs"] by (cases "dirs st STL_DIR") simp_all
      finally show ?thesis .
    next
      case (Some e')
      then have es: "remove_escapes env f" by (simp add: remove_escapes_def)
      have "dirs (snd (remove_all env (f # fs) st)) STL_DIR = dirs st STL_DIR"
        using \<open>remove_raises env f = Some e\<close> Some
        by (simp add: remove_all_Cons after_remove_simps del: remove_all.simps(2))
      also have "\<dots> = map_option (filter (?keep (?tf (f # fs)))) (dirs st STL_DIR)"
      proof (cases "dirs st STL_DIR")
        case (Some es')
        have "filter (?keep []) es' = filter (?keep [f]) es'" by (rule keep)
        then show ?thesis using Some es by simp
      qed simp
      finally show ?thesis .
    qed
  qed
qed

lemma cleanup_escape_None:
  "list_all (\<lambda>f. \<not> remove_escapes env f) fs \<Longrightarrow> cleanup_escape env fs = None"
  by (induction fs) (simp_all add: remove_escapes_def)

subsection \<open>Discovery\<close>

lemma get_stl_files_Some:
  "dirs st STL_DIR = Some entries \<Longrightarrow>
     get_stl_files st = sort (filter has_stl_suffix (map fst entries))"
  by (simp add: get_stl_files_def endswith_lower_stl)

lemma get_stl_files_names:
  "get_stl_files st = sort (filter has_stl_suffix (names st STL_DIR))"
  by (simp add: get_stl_files_def names_def endswith_lower_stl split: option.splits)

lemma scenario_listing: "dirs (initial_state (Some scenario_dir)) STL_DIR = Some scenario_dir"
  by (simp add: initial_state_def)

subsection \<open>The run as one state\<close>

lemma setup_directories_eq:
  assumes "makedirs_raises env STL_DIR = None" "makedirs_raises env STEP_DIR = None"
  shows "setup_directories env st = Inr (with_directories st)"
proof -
  have "(\<lambda>d. Some (case dirs st d of None \<Rightarrow> [] | Some entries \<Rightarrow> entries)) =
        ((dirs st)(STL_DIR := Some (case dirs st STL_DIR of None \<Rightarrow> [] | Some entries \<Rightarrow> entries)))
          (STEP_DIR := Some (case dirs st STEP_DIR of None \<Rightarrow> [] | Some entries \<Rightarrow> entries))"
  proof
    fix d show "Some (case dirs st d of None \<Rightarrow> [] | Some entries \<Rightarrow> entries) =
        (((dirs st)(STL_DIR := Some (case dirs st STL_DIR of None \<Rightarrow> [] | Some entries \<Rightarrow> entries)))
          (STEP_DIR := Some (case dirs st STEP_DIR of None \<Rightarrow> [] | Some entries \<Rightarrow> entries))) d"
      by (cases d) (simp_all split: option.splits)
  qed
  with assms show ?thesis
    by (simp add: setup_directories_def makedirs_def with_directories_def)
qed

lemma with_directories_simps:
  "console (with_directories st) = console st"
  "events (with_directories st) = events st"
  "names (with_directories st) d = names st d"
  "dirs (with_directories st) d \<noteq> None"
  by (simp_all add: with_directories_def names_def split: option.splits)

lemma get_stl_files_with_directories:
  "get_stl_files (with_directories st) = get_stl_files st"
  by (simp add: get_stl_files_names with_directories_simps)

lemma get_stl_files_print_all:
  "get_stl_files (print_all ls st) = get_stl_files st"
  by (simp add: get_stl_files_def print_all_simps)

lemma print_all_append: "print_all (xs @ ys) st = print_all ys (print_all xs st)"
  by (induction xs arbitrary: st) simp_all

lemma print_all_snoc_print:
  "print x (print_all ls (print l st)) = print_all (l # ls @ [x]) st"
  by (simp add: print_all_append)

lemma remove_all_pair:
  "remove_all env fs st = (cleanup_escape env fs, snd (remove_all env fs st))"
  using remove_all_fst [of env fs st] by (cases "remove_all env fs st") simp

lemma loop_escape_attempted: "loop_escape env fs = None \<Longrightarrow> attempted env fs = fs"
  by (simp add: loop_escape_None_iff attempted_all)

lemma filter_fails:
  "list_all (\<lambda>f. \<not> escapes env f) fs \<Longrightarrow>
     filter (fails env) fs = filter (\<lambda>f. \<not> succeeds env f) fs"
  by (induction fs) (simp_all add: outcome_exclusive)

text \<open>A run, in every case in which the directories can be created.\<close>

lemma main_eq:
  assumes "makedirs_raises env STL_DIR = None" "makedirs_raises env STEP_DIR = None"
  shows "main env st0 =
     (if get_stl_files st0 = [] then Inr (run_state env st0)
      else case loop_escape env (get_stl_files st0) of
        Some e \<Rightarrow> Inl (e, loop_state env st0)
      | None \<Rightarrow>
          (case cleanup_escape env (filter (succeeds env) (get_stl_files st0)) of
             Some e \<Rightarrow> Inl (e, cleanup_state env st0)
           | None \<Rightarrow> Inr (run_state env st0)))"
proof -
  have key: "print [] (print_all (map (\<lambda>f. ''  - '' @ f) files)
               (print (CHR 0x0A # ''Found '' @ str_int (int (length files))
                         @ '' STL file(s) to process:'') st)) =
             print_all (found_lines files) st" for files st
    unfolding found_lines_def by (rule print_all_snoc_print)
  have rm: "(case remove_all env fs st of (Some e, st7) \<Rightarrow> Inl (e, st7) | (None, st7) \<Rightarrow> Inr (g st7)) =
            (case cleanup_escape env fs of
               Some e \<Rightarrow> Inl (e, snd (remove_all env fs st))
             | None \<Rightarrow> Inr (g (snd (remove_all env fs st))))" for fs st
      and g :: "state \<Rightarrow> state"
    by (subst remove_all_pair) (simp split: option.splits)
  show ?thesis
  proof (cases "get_stl_files st0 = []")
    case True
    then show ?thesis
      unfolding main_def Let_def key header_lines_def [symmetric] setup_directories_eq [OF assms]
      by (simp add: get_stl_files_with_directories get_stl_files_print_all run_state_def Let_def)
  next
    case False
    show ?thesis
    proof (cases "loop_escape env (get_stl_files st0)")
      case (Some e)
      with False show ?thesis
        unfolding main_def Let_def key header_lines_def [symmetric] setup_directories_eq [OF assms]
        by (simp add: get_stl_files_with_directories get_stl_files_print_all
                      convert_all_eq loop_state_def Let_def)
    next
      case None
      then have att: "attempted env (get_stl_files st0) = get_stl_files st0"
        by (rule loop_escape_attempted)
      from None have ff: "filter (fails env) (get_stl_files st0) =
                          filter (\<lambda>f. \<not> succeeds env f) (get_stl_files st0)"
        by (simp add: loop_escape_None_iff filter_fails)
      from False None show ?thesis
        unfolding main_def Let_def key header_lines_def [symmetric] setup_directories_eq [OF assms]
        by (simp add: get_stl_files_with_directories get_stl_files_print_all
                      convert_all_eq att ff rm cleanup_state_def loop_state_def run_state_def Let_def
                 split: option.splits)
    qed
  qed
qed

lemma contained_escapes:
  assumes "contained env fs"
  shows "loop_escape env fs = None" "cleanup_escape env (filter (succeeds env) fs) = None"
    "attempted env fs = fs"
    "through_first (remove_escapes env) (filter (succeeds env) fs) = filter (succeeds env) fs"
  using assms
  by (simp_all add: contained_def loop_escape_None cleanup_escape_None attempted_all
                    through_first_all)

lemma main_contained:
  assumes "makedirs_raises env STL_DIR = None" "makedirs_raises env STEP_DIR = None"
    and "contained env (get_stl_files st0)"
  shows "main env st0 = Inr (run_state env st0)"
  unfolding main_eq [OF assms(1,2)] using contained_escapes [OF assms(3)] by simp

subsection \<open>Console, log and directories after a run\<close>

lemma step_path_step_name: "step_path f = (STEP_DIR, step_name f)"
  by (simp add: step_name_def step_path_def os_path_join_def)

lemma names_cong: "dirs s1 = dirs s2 \<Longrightarrow> names s1 d = names s2 d"
  by (simp add: names_def)

lemma names_print: "names (print l st) d = names st d"
  by (simp add: names_def print_simps)

lemma names_print_all: "names (print_all ls st) d = names st d"
  by (simp add: names_def print_all_simps)

lemma write_file_step:
  assumes "dirs st STEP_DIR \<noteq> None"
  shows "names (write_file (STEP_DIR, n) st) STEP_DIR = add_name n (names st STEP_DIR)"
    and "names (write_file (STEP_DIR, n) st) STL_DIR = names st STL_DIR"
    and "dirs (write_file (STEP_DIR, n) st) STEP_DIR \<noteq> None"
  using assms by (auto simp: names_def dirs_write_file add_name_def split: option.splits)

lemma fold_write_file_step:
  assumes "dirs st STEP_DIR \<noteq> None"
  shows "names (fold write_file (map step_path fs) st) STEP_DIR =
           fold add_name (map step_name fs) (names st STEP_DIR)
         \<and> names (fold write_file (map step_path fs) st) STL_DIR = names st STL_DIR"
  using assms
proof (induction fs arbitrary: st)
  case Nil
  then show ?case by simp
next
  case (Cons f fs)
  let ?st1 = "write_file (STEP_DIR, step_name f) st"
  from Cons.prems have 1: "dirs ?st1 STEP_DIR \<noteq> None"
    by (rule write_file_step(3))
  from Cons.IH [OF 1] Cons.prems show ?case
    by (simp add: step_path_step_name write_file_step)
qed

lemma after_conversions_names:
  assumes "dirs st STEP_DIR \<noteq> None"
  shows "names (after_conversions env fs st) STEP_DIR =
           fold add_name (map step_name (filter (wrote env) fs)) (names st STEP_DIR)"
    and "names (after_conversions env fs st) STL_DIR = names st STL_DIR"
  using fold_write_file_step [OF assms, of "filter (wrote env) fs"]
        names_cong [OF after_conversions_dirs, of env fs st]
  by simp_all

lemma remove_all_names:
  "names (snd (remove_all env fs st)) STEP_DIR = names st STEP_DIR"
  "names (snd (remove_all env fs st)) STL_DIR =
     filter (\<lambda>n. \<not> (n \<in> set (through_first (remove_escapes env) fs)
                     \<and> remove_raises env n = None)) (names st STL_DIR)"
  by (simp_all add: names_def remove_all_step_dir remove_all_stl_dir filter_map comp_def
               split: option.splits)

lemma run_state_console:
  assumes "get_stl_files st0 \<noteq> []" and "contained env (get_stl_files st0)"
  shows "console (run_state env st0) =
     console st0 @ header_lines @ found_lines (get_stl_files st0)
       @ concat (map (convert_lines env) (get_stl_files st0)) @ [[]]
       @ concat (map (remove_lines env) (filter (succeeds env) (get_stl_files st0)))
       @ summary_lines env (int (length (filter (succeeds env) (get_stl_files st0))))
           (int (length (filter (\<lambda>f. \<not> succeeds env f) (get_stl_files st0))))"
  using assms(1)
  by (simp add: run_state_def Let_def print_all_simps remove_all_console print_simps
                after_conversions_console with_directories_simps
                contained_escapes(4) [OF assms(2)])

lemma run_state_console_empty:
  assumes "get_stl_files st0 = []"
  shows "console (run_state env st0) = console st0 @ header_lines @ no_files_lines env"
  using assms
  by (simp add: run_state_def Let_def print_all_simps with_directories_simps)

lemma run_state_events:
  assumes "contained env (get_stl_files st0)"
  shows "events (run_state env st0) =
     events st0
       @ concat (map (\<lambda>f. map (LibCall f) (calls_made env f (all_calls env f)))
                     (get_stl_files st0))
       @ map (\<lambda>f. OsRemove (STL_DIR, f)) (filter (succeeds env) (get_stl_files st0))"
  by (simp add: run_state_def Let_def print_all_simps remove_all_events print_simps
                after_conversions_events with_directories_simps
                contained_escapes(4) [OF assms])

lemma run_state_names_stl:
  assumes "contained env (get_stl_files st0)"
  shows "names (run_state env st0) STL_DIR =
     filter (\<lambda>n. \<not> (n \<in> set (get_stl_files st0) \<and> succeeds env n \<and> remove_raises env n = None))
       (names st0 STL_DIR)"
proof (cases "get_stl_files st0 = []")
  case True
  then show ?thesis
    by (simp add: run_state_def Let_def names_print_all with_directories_simps)
next
  case False
  have d: "dirs (print_all (found_lines (get_stl_files st0))
                  (with_directories (print_all header_lines st0))) STEP_DIR \<noteq> None"
    by (simp add: print_all_simps with_directories_simps)
  show ?thesis
    using False
    by (simp add: run_state_def Let_def names_print_all names_print remove_all_names
                  contained_escapes(4) [OF assms]
                  after_conversions_names(2) [OF d] with_directories_simps conj_commute conj_left_commute)
qed

lemma run_state_names_step:
  "names (run_state env st0) STEP_DIR =
     fold add_name (map step_name (filter (wrote env) (get_stl_files st0)))
       (names st0 STEP_DIR)"
proof (cases "get_stl_files st0 = []")
  case True
  then show ?thesis
    by (simp add: run_state_def Let_def names_print_all with_directories_simps)
next
  case False
  have d: "dirs (print_all (found_lines (get_stl_files st0))
                  (with_directories (print_all header_lines st0))) STEP_DIR \<noteq> None"
    by (simp add: print_all_simps with_directories_simps)
  show ?thesis
    using False
    by (simp add: run_state_def Let_def names_print_all names_print remove_all_names
                  after_conversions_names(1) [OF d] with_directories_simps)
qed

text \<open>The log and the console of a run, whether it returns or an exception ends it.\<close>

lemma loop_state_events:
  "events (loop_state env st0) =
     events st0 @ conversion_events env (attempted env (get_stl_files st0))"
  by (simp add: loop_state_def after_conversions_events print_all_simps
                with_directories_simps conversion_events_def)

lemma loop_state_console:
  "console (loop_state env st0) =
     console st0 @ header_lines @ found_lines (get_stl_files st0)
       @ concat (map (convert_lines env) (attempted env (get_stl_files st0)))"
  by (simp add: loop_state_def after_conversions_console print_all_simps
                with_directories_simps)

lemma cleanup_state_events:
  "events (cleanup_state env st0) =
     events st0 @ conversion_events env (attempted env (get_stl_files st0))
       @ map (\<lambda>f. OsRemove (STL_DIR, f))
           (through_first (remove_escapes env) (filter (succeeds env) (get_stl_files st0)))"
  by (simp add: cleanup_state_def remove_all_events print_simps loop_state_events)

lemma cleanup_state_console:
  "console (cleanup_state env st0) =
     console st0 @ header_lines @ found_lines (get_stl_files st0)
       @ concat (map (convert_lines env) (attempted env (get_stl_files st0))) @ [[]]
       @ concat (map (remove_lines env)
           (through_first (remove_escapes env) (filter (succeeds env) (get_stl_files st0))))"
  by (simp add: cleanup_state_def remove_all_console print_simps loop_state_console)

lemma run_state_cleanup_state:
  "get_stl_files st0 \<noteq> [] \<Longrightarrow> loop_escape env (get_stl_files st0) = None \<Longrightarrow>
     events (run_state env st0) = events (cleanup_state env st0)"
  by (simp add: run_state_def cleanup_state_def loop_state_def Let_def print_all_simps
                loop_escape_attempted)

lemma main_events:
  assumes "makedirs_raises env STL_DIR = None" "makedirs_raises env STEP_DIR = None"
  shows "events (final_state (main env st0)) =
           events st0 @ conversion_events env (attempted env (get_stl_files st0))
             @ map (\<lambda>f. OsRemove (STL_DIR, f)) (cleanup_attempted env (get_stl_files st0))"
proof (cases "get_stl_files st0 = []")
  case True
  then show ?thesis
    unfolding main_eq [OF assms]
    by (simp add: final_state_def run_state_def Let_def print_all_simps with_directories_simps
                  attempted_def conversion_events_def cleanup_attempted_def)
next
  case False
  show ?thesis
  proof (cases "loop_escape env (get_stl_files st0)")
    case (Some e)
    with False show ?thesis
      unfolding main_eq [OF assms]
      by (simp add: final_state_def loop_state_events cleanup_attempted_def)
  next
    case None
    with False show ?thesis
      unfolding main_eq [OF assms]
      by (simp add: final_state_def cleanup_state_events run_state_cleanup_state
                    cleanup_attempted_def split: option.splits)
  qed
qed

lemma loop_state_names:
  "names (loop_state env st0) STEP_DIR =
     fold add_name (map step_name (filter (wrote env) (attempted env (get_stl_files st0))))
       (names st0 STEP_DIR)"
  "names (loop_state env st0) STL_DIR = names st0 STL_DIR"
proof -
  have d: "dirs (print_all (found_lines (get_stl_files st0))
                  (with_directories (print_all header_lines st0))) STEP_DIR \<noteq> None"
    by (simp add: print_all_simps with_directories_simps)
  show "names (loop_state env st0) STEP_DIR =
     fold add_name (map step_name (filter (wrote env) (attempted env (get_stl_files st0))))
       (names st0 STEP_DIR)"
    by (simp add: loop_state_def after_conversions_names(1) [OF d] names_print_all
                  with_directories_simps)
  show "names (loop_state env st0) STL_DIR = names st0 STL_DIR"
    by (simp add: loop_state_def after_conversions_names(2) [OF d] names_print_all
                  with_directories_simps)
qed

lemma cleanup_state_names:
  "names (cleanup_state env st0) STEP_DIR =
     fold add_name (map step_name (filter (wrote env) (attempted env (get_stl_files st0))))
       (names st0 STEP_DIR)"
  "names (cleanup_state env st0) STL_DIR =
     filter (\<lambda>n. \<not> (n \<in> set (through_first (remove_escapes env)
                                  (filter (succeeds env) (get_stl_files st0)))
                     \<and> remove_raises env n = None)) (names st0 STL_DIR)"
  by (simp_all add: cleanup_state_def remove_all_names names_print loop_state_names)

lemma run_state_dirs:
  "get_stl_files st0 \<noteq> [] \<Longrightarrow> loop_escape env (get_stl_files st0) = None \<Longrightarrow>
     names (run_state env st0) d = names (cleanup_state env st0) d"
  by (simp add: run_state_def cleanup_state_def loop_state_def Let_def names_print_all
                loop_escape_attempted)

text \<open>The names in the two directories when a run has ended, one way or the other.\<close>

lemma main_names:
  assumes "makedirs_raises env STL_DIR = None" "makedirs_raises env STEP_DIR = None"
  shows "names (final_state (main env st0)) STL_DIR =
           filter (\<lambda>n. \<not> (n \<in> set (cleanup_attempted env (get_stl_files st0))
                           \<and> remove_raises env n = None)) (names st0 STL_DIR)"
    and "names (final_state (main env st0)) STEP_DIR =
           fold add_name
             (map step_name (filter (wrote env) (attempted env (get_stl_files st0))))
             (names st0 STEP_DIR)"
proof -
  have "names (final_state (main env st0)) STL_DIR =
           filter (\<lambda>n. \<not> (n \<in> set (cleanup_attempted env (get_stl_files st0))
                           \<and> remove_raises env n = None)) (names st0 STL_DIR)
        \<and> names (final_state (main env st0)) STEP_DIR =
           fold add_name
             (map step_name (filter (wrote env) (attempted env (get_stl_files st0))))
             (names st0 STEP_DIR)"
  proof (cases "get_stl_files st0 = []")
    case True
    then show ?thesis
      unfolding main_eq [OF assms]
      by (simp add: final_state_def run_state_def Let_def names_print_all
                    with_directories_simps attempted_def cleanup_attempted_def)
  next
    case False
    show ?thesis
    proof (cases "loop_escape env (get_stl_files st0)")
      case (Some e)
      with False show ?thesis
        unfolding main_eq [OF assms]
        by (simp add: final_state_def loop_state_names cleanup_attempted_def)
    next
      case None
      with False show ?thesis
        unfolding main_eq [OF assms]
        by (simp add: final_state_def cleanup_state_names run_state_dirs
                      cleanup_attempted_def split: option.splits)
    qed
  qed
  then show "names (final_state (main env st0)) STL_DIR =
           filter (\<lambda>n. \<not> (n \<in> set (cleanup_attempted env (get_stl_files st0))
                           \<and> remove_raises env n = None)) (names st0 STL_DIR)"
    and "names (final_state (main env st0)) STEP_DIR =
           fold add_name
             (map step_name (filter (wrote env) (attempted env (get_stl_files st0))))
             (names st0 STEP_DIR)"
    by simp_all
qed

lemma cleanup_escape_None_iff:
  "cleanup_escape env fs = None \<longleftrightarrow> list_all (\<lambda>f. \<not> remove_escapes env f) fs"
  by (induction fs) (auto simp: remove_escapes_def split: option.splits)

text \<open>A run returns exactly when the directories can be created and every exception
  is contained.\<close>

lemma returns_iff:
  "uncaught (main env st0) = None \<longleftrightarrow>
     makedirs_raises env STL_DIR = None \<and> makedirs_raises env STEP_DIR = None
     \<and> contained env (get_stl_files st0)"
proof (cases "makedirs_raises env STL_DIR = None \<and> makedirs_raises env STEP_DIR = None")
  case True
  then have m: "makedirs_raises env STL_DIR = None" "makedirs_raises env STEP_DIR = None"
    by simp_all
  show ?thesis
    unfolding main_eq [OF m]
    by (simp add: m uncaught_def contained_def loop_escape_None_iff [symmetric]
                  cleanup_escape_None_iff [symmetric] split: option.splits)
next
  case False
  then have "uncaught (main env st0) \<noteq> None"
    by (auto simp: main_def setup_directories_def makedirs_def uncaught_def
             split: option.splits)
  with False show ?thesis by blast
qed

lemma main_returns:
  assumes "uncaught (main env st0) = None"
  shows "main env st0 = Inr (run_state env st0)"
    and "makedirs_raises env STL_DIR = None" and "makedirs_raises env STEP_DIR = None"
    and "contained env (get_stl_files st0)"
proof -
  from assms show m: "makedirs_raises env STL_DIR = None" "makedirs_raises env STEP_DIR = None"
    and c: "contained env (get_stl_files st0)"
    by (simp_all add: returns_iff)
  from m c show "main env st0 = Inr (run_state env st0)" by (rule main_contained)
qed

subsection \<open>The example runs\<close>

lemmas call_defs =
  all_calls_def import_calls_def calls_to_export_def calls_before_export_def
  mesh_calls_def solid_call_def

lemma batch_files:
  "get_stl_files (initial_state (Some batch_dir)) = [''broken.stl'', ''cube.stl'']"
  by (simp add: get_stl_files_def initial_state_def batch_dir_def endswith_lower_stl
                has_stl_suffix_def)

lemma pair_files:
  "get_stl_files (initial_state (Some pair_dir)) = [''ball.stl'', ''cube.stl'']"
  by (simp add: get_stl_files_def initial_state_def pair_dir_def endswith_lower_stl
                has_stl_suffix_def)

lemma cube_files: "get_stl_files (initial_state (Some cube_dir)) = [''cube.stl'']"
  by (simp add: get_stl_files_def initial_state_def cube_dir_def endswith_lower_stl
                has_stl_suffix_def)

lemma empty_files: "get_stl_files (initial_state (Some empty_dir)) = []"
  by (simp add: get_stl_files_def initial_state_def empty_dir_def)

lemma env_ok_succeeds: "succeeds env_ok f"
  by (simp add: succeeds_def raised_def call_defs env_ok_def)

lemma env_remove_fails_succeeds: "succeeds env_remove_fails f"
  by (simp add: succeeds_def raised_def call_defs env_remove_fails_def env_ok_def)

lemma env_remove_interrupted_succeeds: "succeeds env_remove_interrupted f"
  by (simp add: succeeds_def raised_def call_defs env_remove_interrupted_def env_ok_def)

lemma env_broken_cube: "succeeds env_broken ''cube.stl''"
  by (simp add: succeeds_def raised_def call_defs env_broken_def env_ok_def)

lemma env_broken_broken: "raised env_broken ''broken.stl'' = Some (Exn ''not a valid mesh'')"
  by (simp add: raised_def call_defs env_broken_def env_ok_def)

lemma env_broken_raised:
  "raised env_broken f = None \<or> raised env_broken f = Some (Exn ''not a valid mesh'')"
  by (simp add: raised_def call_defs env_broken_def env_ok_def)

lemma env_interrupt_broken:
  "raised env_interrupt ''broken.stl'' = Some (BaseExn ''KeyboardInterrupt'')"
  by (simp add: raised_def call_defs env_interrupt_def env_ok_def)

lemma env_close_fails_raised:
  "raised env_close_fails f = Some (Exn ''document cannot be closed'')"
  by (simp add: raised_def call_defs env_close_fails_def env_ok_def)

lemma env_close_fails_exported: "exported env_close_fails f"
  by (simp add: exported_def call_defs env_close_fails_def env_ok_def)

lemma example_setup:
  "makedirs_raises env_ok d = None" "makedirs_raises env_broken d = None"
  "makedirs_raises env_close_fails d = None" "makedirs_raises env_remove_fails d = None"
  "makedirs_raises env_interrupt d = None" "makedirs_raises env_remove_interrupted d = None"
  by (simp_all add: env_ok_def env_broken_def env_close_fails_def env_remove_fails_def
                    env_interrupt_def env_remove_interrupted_def)

lemma raised_escapes:
  "raised env f = None \<Longrightarrow> \<not> escapes env f"
  "raised env f = Some (Exn msg) \<Longrightarrow> \<not> escapes env f"
  "raised env f = Some (Exn msg) \<Longrightarrow> fails env f"
  "raised env f = Some (BaseExn msg) \<Longrightarrow> escape env f = Some (BaseExn msg)"
  "raised env f = Some (Unprintable e) \<Longrightarrow> escape env f = Some e"
  by (simp_all add: escapes_def escape_def outcome_of_def fails_def)

lemma remove_raises_escapes:
  "remove_raises env f = None \<Longrightarrow> \<not> remove_escapes env f"
  "remove_raises env f = Some (Exn msg) \<Longrightarrow> \<not> remove_escapes env f"
  "remove_raises env f = Some (BaseExn msg) \<Longrightarrow> remove_escape env f = Some (BaseExn msg)"
  "remove_raises env f = Some (Unprintable e) \<Longrightarrow> remove_escape env f = Some e"
  by (simp_all add: remove_escapes_def remove_escape_def)

lemma example_remove:
  "remove_raises env_ok f = None" "remove_raises env_broken f = None"
  "remove_raises env_close_fails f = None"
  "remove_raises env_remove_fails f = Some (Exn ''Permission denied'')"
  "remove_raises env_interrupt f = None"
  "remove_raises env_remove_interrupted f = Some (BaseExn ''KeyboardInterrupt'')"
  by (simp_all add: env_ok_def env_broken_def env_close_fails_def env_remove_fails_def
                    env_interrupt_def env_remove_interrupted_def)

lemma contained_examples:
  "contained env_ok fs" "contained env_broken fs" "contained env_close_fails fs"
  "contained env_remove_fails fs"
proof -
  have b: "\<not> escapes env_broken f" for f
    using env_broken_raised [of f] raised_escapes(1,2) [of env_broken f] by blast
  show "contained env_ok fs"
    using env_ok_succeeds
    by (simp add: contained_def list_all_iff outcome_exclusive
                  remove_raises_escapes(1) example_remove)
  show "contained env_broken fs"
    using b
    by (simp add: contained_def list_all_iff remove_raises_escapes(1) example_remove)
  show "contained env_close_fails fs"
    by (simp add: contained_def list_all_iff raised_escapes(2) [OF env_close_fails_raised]
                  remove_raises_escapes(1) example_remove)
  show "contained env_remove_fails fs"
    using env_remove_fails_succeeds
    by (simp add: contained_def list_all_iff outcome_exclusive
                  remove_raises_escapes(2) [OF example_remove(4)])
qed

lemma examples_return:
  "uncaught (main env_ok st0) = None" "uncaught (main env_broken st0) = None"
  "uncaught (main env_close_fails st0) = None" "uncaught (main env_remove_fails st0) = None"
  by (simp_all add: returns_iff example_setup contained_examples)

lemma initial_state_simps:
  "console (initial_state s) = []"
  "events (initial_state s) = []"
  "dirs (initial_state s) STL_DIR = s"
  "names (initial_state (Some d)) STL_DIR = map fst d"
  "names (initial_state s) STEP_DIR = []"
  by (simp_all add: initial_state_def names_def)

lemma env_remove_fails_reset: "env_remove_fails\<lparr>remove_raises := remove_raises env_ok\<rparr> = env_ok"
  by (simp add: env_remove_fails_def env_ok_def)

subsection \<open>The log of outside calls\<close>

lemma removals_append: "removals (xs @ ys) = removals xs @ removals ys"
  by (induction xs rule: removals.induct) simp_all

lemma attempts_append: "attempts (xs @ ys) = attempts xs @ attempts ys"
  by (induction xs rule: attempts.induct) simp_all

lemma removals_lib_calls: "removals (map (LibCall f) cs) = []"
  by (induction cs) simp_all

lemma removals_os_remove:
  "removals (map (\<lambda>f. OsRemove (STL_DIR, f)) fs) = map (os_path_join STL_DIR) fs"
  by (induction fs) (simp_all add: os_path_join_def)

lemma attempts_os_remove: "attempts (map (\<lambda>f. OsRemove (STL_DIR, f)) fs) = []"
  by (induction fs) simp_all

lemma removals_conversion_events: "removals (conversion_events env files) = []"
  by (induction files) (simp_all add: conversion_events_def removals_append removals_lib_calls)

lemma lib_calls_conversion_events: "list_all is_lib_call (conversion_events env files)"
  by (auto simp: conversion_events_def list_all_iff)

lemma attempts_later_calls:
  "ImportFreeCAD \<notin> set cs \<Longrightarrow> attempts (map (LibCall f) (calls_made env f cs)) = []"
  by (induction cs) (auto split: option.splits)

lemma attempts_one_file:
  "attempts (map (LibCall f) (calls_made env f (all_calls env f))) = [f]"
proof -
  have "all_calls env f =
          ImportFreeCAD # ([ImportMesh, ImportPart] @ calls_to_export env f @ [CloseDocument])"
    by (simp add: all_calls_def import_calls_def)
  moreover have "ImportFreeCAD \<notin> set ([ImportMesh, ImportPart] @ calls_to_export env f @ [CloseDocument])"
    by (simp add: calls_to_export_def calls_before_export_def mesh_calls_def solid_call_def)
  ultimately show ?thesis
    using attempts_later_calls [of "[ImportMesh, ImportPart] @ calls_to_export env f @ [CloseDocument]" f env]
    by (simp split: option.splits)
qed

lemma attempts_conversion_events: "attempts (conversion_events env files) = files"
proof (induction files)
  case Nil
  then show ?case by (simp add: conversion_events_def)
next
  case (Cons f fs)
  have "conversion_events env (f # fs) =
          map (LibCall f) (calls_made env f (all_calls env f)) @ conversion_events env fs"
    by (simp add: conversion_events_def)
  then show ?case
    by (simp add: attempts_append attempts_one_file Cons.IH)
qed

lemma run_state_events_split:
  assumes "contained env (get_stl_files st0)"
  shows "events (run_state env st0) =
     events st0 @ conversion_events env (get_stl_files st0)
       @ map (\<lambda>f. OsRemove (STL_DIR, f)) (filter (succeeds env) (get_stl_files st0))"
  by (simp add: run_state_events [OF assms] conversion_events_def)

lemma sorted_get_stl_files: "sorted (get_stl_files st)"
  by (simp add: get_stl_files_names)

lemma first_raise_remove_raises:
  "first_raise (env\<lparr>remove_raises := r\<rparr>) f cs = first_raise env f cs"
  by (induction cs) (simp_all split: option.splits)

lemma succeeds_remove_raises: "succeeds (env\<lparr>remove_raises := r\<rparr>) = succeeds env"
  by (rule ext)
     (simp add: succeeds_def raised_def all_calls_def calls_to_export_def
                calls_before_export_def solid_call_def first_raise_remove_raises)

lemma summary_is_last:
  "drop (length (pre @ summary_lines env s f) - 7) (pre @ summary_lines env s f) =
     summary_lines env s f"
  by (simp add: summary_lines_def)

lemma run_state_summary:
  assumes "contained env (get_stl_files st0)"
    and "contained (env\<lparr>remove_raises := r\<rparr>) (get_stl_files st0)"
  shows
  "drop (length (console (run_state (env\<lparr>remove_raises := r\<rparr>) st0)) - 7)
        (console (run_state (env\<lparr>remove_raises := r\<rparr>) st0)) =
   drop (length (console (run_state env st0)) - 7) (console (run_state env st0))"
proof (cases "get_stl_files st0 = []")
  case True
  then show ?thesis
    by (simp add: run_state_console_empty no_files_lines_def)
next
  case False
  let ?s = "int (length (filter (succeeds env) (get_stl_files st0)))"
  let ?f = "int (length (filter (\<lambda>f. \<not> succeeds env f) (get_stl_files st0)))"
  have l: "summary_lines (env\<lparr>remove_raises := r\<rparr>) ?s ?f = summary_lines env ?s ?f"
    by (simp add: summary_lines_def)
  let ?pre = "\<lambda>e. console st0 @ header_lines @ found_lines (get_stl_files st0)
       @ concat (map (convert_lines e) (get_stl_files st0)) @ [[]]
       @ concat (map (remove_lines e) (filter (succeeds env) (get_stl_files st0)))"
  have 1: "console (run_state env st0) = ?pre env @ summary_lines env ?s ?f"
    using run_state_console [OF False assms(1)] by simp
  have 2: "console (run_state (env\<lparr>remove_raises := r\<rparr>) st0) =
             ?pre (env\<lparr>remove_raises := r\<rparr>) @ summary_lines env ?s ?f"
    using run_state_console [OF False assms(2)]
    by (simp add: succeeds_remove_raises l)
  show ?thesis
    unfolding 1 2 summary_is_last ..
qed

lemma through_first_take:
  "through_first P xs = take (length (through_first P xs)) xs"
  by (induction xs) simp_all

lemma cleanup_attempted_prefix:
  "cleanup_attempted env files =
     take (length (cleanup_attempted env files)) (filter (succeeds env) files)"
  unfolding cleanup_attempted_def
  using through_first_take [of "remove_escapes env" "filter (succeeds env) files"]
  by simp

lemma through_first_subset: "set (through_first P xs) \<subseteq> set xs"
  by (induction xs) auto

lemma cleanup_attempted_succeeds:
  "f \<in> set (cleanup_attempted env files) \<Longrightarrow> succeeds env f \<and> f \<in> set files"
  using through_first_subset [of "remove_escapes env" "filter (succeeds env) files"]
  by (auto simp: cleanup_attempted_def split: if_splits)

lemma cleanup_attempted_after_loop:
  "cleanup_attempted env files \<noteq> [] \<Longrightarrow> attempted env files = files"
  by (simp add: cleanup_attempted_def loop_escape_attempted split: if_splits)

subsection \<open>Counting entries\<close>

lemma set_fold_add_name: "set (fold add_name ns xs) = set xs \<union> set ns"
  by (induction ns arbitrary: xs) (auto simp: add_name_def)

lemma distinct_fold_add_name: "distinct xs \<Longrightarrow> distinct (fold add_name ns xs)"
  by (induction ns arbitrary: xs) (auto simp: add_name_def)

lemma count_list_distinct:
  "distinct xs \<Longrightarrow> count_list xs x = (if x \<in> set xs then 1 else 0)"
  by (induction xs) auto

lemma discovered_in_directory: "f \<in> set (get_stl_files st) \<Longrightarrow> f \<in> set (names st STL_DIR)"
  by (simp add: get_stl_files_names)

lemma succeeds_exported: "succeeds env f \<Longrightarrow> exported env f"
  by (simp add: succeeds_def raised_def exported_def all_calls_def first_raise_append
           split: option.splits)

lemma exported_wrote: "exported env f \<Longrightarrow> wrote env f"
  by (simp add: exported_def wrote_def reached_export_def calls_to_export_def
                first_raise_append split: option.splits)

text \<open>The input file of a conversion during which the library raised is still there
  when the run has ended.\<close>

lemma failed_input_stays:
  assumes "makedirs_raises env STL_DIR = None" "makedirs_raises env STEP_DIR = None"
    and "distinct (names st0 STL_DIR)" and "f \<in> set (get_stl_files st0)"
    and "\<not> succeeds env f"
  shows "f \<notin> set (cleanup_attempted env (get_stl_files st0))"
    and "count_list (names (final_state (main env st0)) STL_DIR) f = 1"
proof -
  show n: "f \<notin> set (cleanup_attempted env (get_stl_files st0))"
    using cleanup_attempted_succeeds [of f env "get_stl_files st0"] assms(5) by blast
  have "distinct (names (final_state (main env st0)) STL_DIR)"
    using assms(3) by (simp add: main_names(1) [OF assms(1,2)])
  moreover have "f \<in> set (names (final_state (main env st0)) STL_DIR)"
    using n discovered_in_directory [OF assms(4)] by (simp add: main_names(1) [OF assms(1,2)])
  ultimately show "count_list (names (final_state (main env st0)) STL_DIR) f = 1"
    by (simp add: count_list_distinct)
qed

lemma run_count_stl:
  assumes "distinct (names st0 STL_DIR)" and "f \<in> set (get_stl_files st0)"
    and "contained env (get_stl_files st0)"
  shows "count_list (names (run_state env st0) STL_DIR) f =
           (if succeeds env f \<and> remove_raises env f = None then 0 else 1)"
proof -
  have "distinct (names (run_state env st0) STL_DIR)"
    using assms(1) by (simp add: run_state_names_stl [OF assms(3)])
  moreover have "f \<in> set (names (run_state env st0) STL_DIR) \<longleftrightarrow>
                 \<not> (succeeds env f \<and> remove_raises env f = None)"
    using assms(2) discovered_in_directory [OF assms(2)]
    by (simp add: run_state_names_stl [OF assms(3)])
  ultimately show ?thesis
    by (simp add: count_list_distinct)
qed

lemma run_count_step:
  assumes "distinct (names st0 STEP_DIR)" and "f \<in> set (get_stl_files st0)"
    and "wrote env f"
  shows "count_list (names (run_state env st0) STEP_DIR) (step_name f) = 1"
proof -
  have "distinct (names (run_state env st0) STEP_DIR)"
    using assms(1) by (simp add: run_state_names_step distinct_fold_add_name)
  moreover have "step_name f \<in> set (names (run_state env st0) STEP_DIR)"
    using assms(2,3) by (simp add: run_state_names_step set_fold_add_name)
  ultimately show ?thesis
    by (simp add: count_list_distinct)
qed

lemma convert_failure_line:
  assumes "raised env f = Some (Exn msg)"
  shows "convert_lines env f \<noteq> []" and "last (convert_lines env f) = error_line f msg"
proof -
  have "convert_lines env f \<noteq> [] \<and> last (convert_lines env f) = error_line f msg"
  proof (cases "first_raise env f import_calls")
    case None
    then show ?thesis using assms by (simp add: convert_lines_def)
  next
    case (Some e')
    then have "raised env f = Some e'"
      by (simp add: raised_def all_calls_def first_raise_append)
    with assms have "e' = Exn msg" by simp
    with Some show ?thesis by (simp add: convert_lines_def)
  qed
  then show "convert_lines env f \<noteq> []" and "last (convert_lines env f) = error_line f msg"
    by simp_all
qed

text \<open>How a conversion ends.\<close>

lemma convert_ends:
  "fst (convert_stl_to_step env f st) =
     (case raised env f of
        None \<Rightarrow> Returned True
      | Some (Exn m) \<Rightarrow> Returned False
      | Some (Unprintable e') \<Rightarrow> Raised e'
      | Some (BaseExn m) \<Rightarrow> Raised (BaseExn m))"
  by (simp add: convert_fst outcome_of_def split: option.splits exn.splits)

lemma step_name_cube: "step_name ''cube.stl'' = ''cube.step''"
  by code_simp

text \<open>The line that reports the removal of a converted file is on the console of a
  run that returns.\<close>

lemma removal_reported:
  assumes "uncaught (main env st0) = None"
    and "f \<in> set (get_stl_files st0)" and "succeeds env f"
  shows "remove_raises env f = None \<Longrightarrow> result_printed (''Removed: '' @ f) (main env st0)"
    and "remove_raises env f = Some (Exn msg) \<Longrightarrow>
           result_printed (''Warning: Could not remove '' @ f @ '': '' @ msg) (main env st0)"
proof -
  note m = main_returns [OF assms(1)]
  from assms(2) have ne: "get_stl_files st0 \<noteq> []" by auto
  from assms(2,3) have mem: "f \<in> set (filter (succeeds env) (get_stl_files st0))" by simp
  have sub: "set (remove_lines env f) \<subseteq> set (console (run_state env st0))"
    unfolding run_state_console [OF ne m(4)] using mem by auto
  show "result_printed (''Removed: '' @ f) (main env st0)" if "remove_raises env f = None"
    using sub that by (simp add: m(1) result_printed_def remove_lines_def)
  show "result_printed (''Warning: Could not remove '' @ f @ '': '' @ msg) (main env st0)"
    if "remove_raises env f = Some (Exn msg)"
    using sub that by (simp add: m(1) result_printed_def remove_lines_def)
qed

text \<open>Decimal numerals can be read back: different counts are printed differently.\<close>

lemma digit_value_nth: "n < 10 \<Longrightarrow> digit_value (''0123456789'' ! n) = n"
proof -
  assume "n < 10"
  then have "n \<in> {0, 1, 2, 3, 4, 5, 6, 7, 8, 9}" by auto
  then show ?thesis by (auto simp: digit_value_def)
qed

lemma read_nat_snoc: "read_nat (s @ [c]) = 10 * read_nat s + digit_value c"
  by (simp add: read_nat_def)

lemma read_nat_str_nat: "read_nat (str_nat n) = n"
proof (induction n rule: str_nat.induct)
  case (1 n)
  show ?case
  proof (cases "n < 10")
    case True
    then show ?thesis
      by (subst str_nat.simps) (simp add: read_nat_def digit_value_nth)
  next
    case False
    then have "read_nat (str_nat n) = 10 * read_nat (str_nat (n div 10)) + n mod 10"
      by (subst str_nat.simps) (simp add: read_nat_snoc digit_value_nth)
    with 1 False show ?thesis by simp
  qed
qed

lemma str_int_inj: "inj (\<lambda>n. str_int (int n))"
proof (rule injI)
  fix m n assume "str_int (int m) = str_int (int n)"
  then have "str_nat m = str_nat n" by (simp add: str_int_def)
  then have "read_nat (str_nat m) = read_nat (str_nat n)" by simp
  then show "m = n" by (simp only: read_nat_str_nat)
qed

lemma result_summary_of_console:
  assumes "result_console r = Some (pre @ ls)" and "length ls = 7"
  shows "result_summary r = Some ls"
  using assms by (cases r) (simp_all add: result_console_def result_summary_def)

section \<open>File discovery and naming\<close>

text \<open>
  Claim C5. For an input directory with any entries, \<^verbatim>\<open>get_stl_files\<close> returns exactly the
  entries whose name ends in \<^verbatim>\<open>.stl\<close> in any mix of upper and lower case, each as often as
  it is listed, and no other entry. A directory that holds \<^verbatim>\<open>cube.stl\<close>, \<^verbatim>\<open>sphere.STL\<close>
  and \<^verbatim>\<open>readme.txt\<close>, listed in whatever order, gives \<^verbatim>\<open>["cube.stl", "sphere.STL"]\<close>.
\<close>

theorem get_stl_files_exact:
  assumes "dirs st STL_DIR = Some entries"
  shows "mset (get_stl_files st) = filter_mset has_stl_suffix (mset (map fst entries))
         \<and> (mset (map fst entries) = {#''cube.stl'', ''sphere.STL'', ''readme.txt''#}
              \<longrightarrow> get_stl_files st = [''cube.stl'', ''sphere.STL''])"
proof
  show m: "mset (get_stl_files st) = filter_mset has_stl_suffix (mset (map fst entries))"
    by (simp add: get_stl_files_Some [OF assms])
  show "mset (map fst entries) = {#''cube.stl'', ''sphere.STL'', ''readme.txt''#}
          \<longrightarrow> get_stl_files st = [''cube.stl'', ''sphere.STL'']"
  proof
    assume dir: "mset (map fst entries) = {#''cube.stl'', ''sphere.STL'', ''readme.txt''#}"
    have c: "has_stl_suffix ''cube.stl''" by (simp add: has_stl_suffix_def)
    have s: "has_stl_suffix ''sphere.STL''" by (simp add: has_stl_suffix_def)
    have r: "\<not> has_stl_suffix ''readme.txt''" by (simp add: has_stl_suffix_def)
    have "mset (filter has_stl_suffix (map fst entries)) =
            filter_mset has_stl_suffix (mset (map fst entries))"
      by (rule mset_filter)
    also have "\<dots> = filter_mset has_stl_suffix {#''cube.stl'', ''sphere.STL'', ''readme.txt''#}"
      by (simp only: dir)
    also have "\<dots> = {#''cube.stl'', ''sphere.STL''#}"
      by (simp only: filter_mset_add_mset filter_empty_mset c s r if_True if_False)
    finally have m2: "mset [''cube.stl'', ''sphere.STL''] =
                      mset (filter has_stl_suffix (map fst entries))"
      by (simp only: mset.simps)
    have "sorted [''cube.stl'', ''sphere.STL'']" by simp
    with m2 have "sort (filter has_stl_suffix (map fst entries)) = [''cube.stl'', ''sphere.STL'']"
      by (rule properties_for_sort)
    then show "get_stl_files st = [''cube.stl'', ''sphere.STL'']"
      by (simp add: get_stl_files_Some [OF assms])
  qed
qed

text \<open>The scenario of the specification, with the directory listed in another order.\<close>

theorem get_stl_files_exact_witness:
  "dirs (initial_state (Some scenario_dir)) STL_DIR = Some scenario_dir
   \<and> mset (map fst scenario_dir) = {#''cube.stl'', ''sphere.STL'', ''readme.txt''#}
   \<and> get_stl_files (initial_state (Some scenario_dir)) = [''cube.stl'', ''sphere.STL'']"
proof -
  have m: "mset (map fst scenario_dir) = {#''cube.stl'', ''sphere.STL'', ''readme.txt''#}"
    by (simp add: scenario_dir_def)
  show ?thesis
    using get_stl_files_exact [OF scenario_listing] m scenario_listing by simp
qed

text \<open>
  Claim C6 says that only regular files are returned. The function looks at names only:
  a directory named \<^verbatim>\<open>models.stl\<close> inside the input directory is returned.
\<close>

theorem get_stl_files_subdir_counterexample:
  "get_stl_files (initial_state (Some subdir_dir)) = [''models.stl'']
   \<and> map_of subdir_dir ''models.stl'' = Some Subdir"
  by (simp add: get_stl_files_def initial_state_def subdir_dir_def endswith_lower_stl
                has_stl_suffix_def)

text \<open>
  Claim C6, amended. \<^verbatim>\<open>get_stl_files\<close> returns the entries of the input directory, of
  whatever kind (regular file, directory or other), whose name ends in \<^verbatim>\<open>.stl\<close> in any
  mix of case, and returns them in lexicographic order.
\<close>

theorem get_stl_files_sorted_any_kind:
  assumes "dirs st STL_DIR = Some entries"
  shows "sorted (get_stl_files st)
         \<and> set (get_stl_files st) = {n. has_stl_suffix n \<and> (\<exists>k. (n, k) \<in> set entries)}"
proof -
  have "fst ` set entries = {n. \<exists>k. (n, k) \<in> set entries}"
    by force
  then show ?thesis
    by (auto simp: get_stl_files_Some [OF assms])
qed

theorem get_stl_files_sorted_any_kind_witness:
  "dirs (initial_state (Some subdir_dir)) STL_DIR = Some subdir_dir
   \<and> sorted (get_stl_files (initial_state (Some subdir_dir)))
   \<and> ''models.stl'' \<in> set (get_stl_files (initial_state (Some subdir_dir)))"
proof -
  have d: "dirs (initial_state (Some subdir_dir)) STL_DIR = Some subdir_dir"
    by (simp add: initial_state_def)
  have "has_stl_suffix ''models.stl''" by (simp add: has_stl_suffix_def)
  moreover have "(''models.stl'', Subdir) \<in> set subdir_dir" by (simp add: subdir_dir_def)
  ultimately show ?thesis
    using get_stl_files_sorted_any_kind [OF d] d by blast
qed

text \<open>
  Claim C7 says that the output name is the input name with its extension replaced by
  \<^verbatim>\<open>.step\<close>, also for a file named exactly \<^verbatim>\<open>.stl\<close>. For that name
  \<^verbatim>\<open>os.path.splitext\<close> finds no extension, and the output is \<^verbatim>\<open>.stl.step\<close>.
\<close>

theorem step_path_dot_stl_counterexample:
  "has_stl_suffix ''.stl''
   \<and> step_path ''.stl'' = (STEP_DIR, ''.stl.step'')
   \<and> step_path ''.stl'' \<noteq> os_path_join STEP_DIR (spec_step_name ''.stl'')"
proof -
  have "step_path ''.stl'' = (STEP_DIR, ''.stl.step'')" by code_simp
  moreover have "spec_step_name ''.stl'' = ''.step''" by (simp add: spec_step_name_def)
  moreover have "has_stl_suffix ''.stl''" by (simp add: has_stl_suffix_def)
  ultimately show ?thesis by (simp add: os_path_join_def)
qed

text \<open>
  Claim C7, amended. For a discovered name (without a path separator), the output path
  is in the output directory; its name is the input name with the \<^verbatim>\<open>.stl\<close> extension
  replaced by \<^verbatim>\<open>.step\<close> when a character other than a dot comes before that extension,
  and the whole input name followed by \<^verbatim>\<open>.step\<close> when only dots (or nothing) come
  before it. That path is the one \<^verbatim>\<open>convert_stl_to_step\<close> exports to.
\<close>

theorem step_path_of_stl_name:
  assumes "has_stl_suffix f" and "CHR ''/'' \<notin> set f"
  shows "step_path f =
           os_path_join STEP_DIR
             (if \<exists>c \<in> set (take (length f - 4) f). c \<noteq> CHR ''.''
              then spec_step_name f else f @ ''.step'')
         \<and> (exported env f \<longrightarrow>
              dirs (snd (convert_stl_to_step env f st)) = dirs (write_file (step_path f) st))"
  using splitext_stl [OF assms]
  by (simp add: step_path_def spec_step_name_def convert_dirs exported_wrote)

theorem step_path_of_stl_name_witness:
  "has_stl_suffix ''cube.stl'' \<and> CHR ''/'' \<notin> set ''cube.stl'' \<and> exported env_ok ''cube.stl''
   \<and> step_path ''cube.stl'' = (STEP_DIR, ''cube.step'')
   \<and> names (snd (convert_stl_to_step env_ok ''cube.stl''
                   (with_directories (initial_state (Some cube_dir))))) STEP_DIR = [''cube.step'']"
proof -
  have h: "has_stl_suffix ''cube.stl''" by (simp add: has_stl_suffix_def)
  have n: "CHR ''/'' \<notin> set ''cube.stl''" by simp
  have e: "exported env_ok ''cube.stl''"
    by (simp add: exported_def env_ok_def call_defs)
  have s: "spec_step_name ''cube.stl'' = ''cube.step''" by (simp add: spec_step_name_def)
  show ?thesis
    using step_path_of_stl_name [OF h n, of env_ok "with_directories (initial_state (Some cube_dir))"]
          h n e s
    by (simp add: os_path_join_def names_def dirs_write_file with_directories_def
                  initial_state_def cube_dir_def)
qed

section \<open>The batch: counters, summary, cleanup\<close>

text \<open>
  Claim C1. Take a run that discovers at least one file and returns. Its conversion loop
  ends with \<^verbatim>\<open>successful\<close> the number of discovered files for which
  \<^verbatim>\<open>convert_stl_to_step\<close> returned \<^verbatim>\<open>True\<close> and \<^verbatim>\<open>failed\<close> the number of those for which it
  returned \<^verbatim>\<open>False\<close>; every discovered file is in exactly one of the two groups, so the
  two counters add up to the number of discovered files. The run prints the header, the
  list of the files, what the conversions and the deletions print, and ends with the seven
  lines of the summary, which show these two counters in decimal; two different
  counts are never shown by the same numeral.
\<close>

theorem counters_sum_to_discovered:
  assumes "uncaught (main env st0) = None" and "get_stl_files st0 \<noteq> []"
  shows "convert_all env (get_stl_files st0) (0, 0, [], st) =
           (None,
            int (length (filter (succeeds env) (get_stl_files st0))),
            int (length (filter (fails env) (get_stl_files st0))),
            filter (succeeds env) (get_stl_files st0),
            after_conversions env (get_stl_files st0) st)
         \<and> (succeeds env f \<longleftrightarrow> fst (convert_stl_to_step env f st) = Returned True)
         \<and> (fails env f \<longleftrightarrow> fst (convert_stl_to_step env f st) = Returned False)
         \<and> filter (fails env) (get_stl_files st0) =
             filter (\<lambda>f. \<not> succeeds env f) (get_stl_files st0)
         \<and> length (filter (succeeds env) (get_stl_files st0))
               + length (filter (fails env) (get_stl_files st0)) = length (get_stl_files st0)
         \<and> result_console (main env st0) =
             Some ((console st0 @ header_lines @ found_lines (get_stl_files st0)
                      @ concat (map (convert_lines env) (get_stl_files st0)) @ [[]]
                      @ concat (map (remove_lines env)
                                  (filter (succeeds env) (get_stl_files st0))))
                   @ ['''', replicate 60 CHR ''='', ''Conversion complete!'',
                      ''  Successful: ''
                        @ str_int (int (length (filter (succeeds env) (get_stl_files st0)))),
                      ''  Failed: ''
                        @ str_int (int (length (filter (fails env) (get_stl_files st0)))),
                      ''  Output directory: '' @ step_dir_path env,
                      replicate 60 CHR ''=''])
         \<and> inj (\<lambda>n. str_int (int n))"
proof -
  let ?files = "get_stl_files st0"
  note m = main_returns [OF assms(1)]
  note c = contained_escapes [OF m(4)]
  from m(4) have ne: "list_all (\<lambda>f. \<not> escapes env f) ?files"
    by (simp add: contained_def)
  have ff: "filter (fails env) ?files = filter (\<lambda>f. \<not> succeeds env f) ?files"
    using ne by (rule filter_fails)
  have 1: "convert_all env ?files (0, 0, [], st) =
           (None, int (length (filter (succeeds env) ?files)),
            int (length (filter (fails env) ?files)), filter (succeeds env) ?files,
            after_conversions env ?files st)"
    by (simp add: convert_all_eq c)
  have 2: "succeeds env f \<longleftrightarrow> fst (convert_stl_to_step env f st) = Returned True"
    by (simp add: convert_fst outcome_of_cases)
  have 3: "fails env f \<longleftrightarrow> fst (convert_stl_to_step env f st) = Returned False"
    by (simp add: convert_fst outcome_of_cases)
  have 4: "length (filter (succeeds env) ?files) + length (filter (fails env) ?files) =
           length ?files"
    unfolding ff by (rule sum_length_filter_compl)
  have 5: "result_console (main env st0) =
             Some ((console st0 @ header_lines @ found_lines ?files
                      @ concat (map (convert_lines env) ?files) @ [[]]
                      @ concat (map (remove_lines env) (filter (succeeds env) ?files)))
                   @ ['''', replicate 60 CHR ''='', ''Conversion complete!'',
                      ''  Successful: '' @ str_int (int (length (filter (succeeds env) ?files))),
                      ''  Failed: '' @ str_int (int (length (filter (fails env) ?files))),
                      ''  Output directory: '' @ step_dir_path env,
                      replicate 60 CHR ''=''])"
    unfolding ff
    by (simp add: m(1) result_console_def run_state_console [OF assms(2) m(4)]
                  summary_lines_def banner_def)
  from 1 2 3 ff 4 5 str_int_inj show ?thesis by blast
qed

text \<open>A batch of \<^verbatim>\<open>cube.stl\<close> and \<^verbatim>\<open>broken.stl\<close>: one success and one failure.\<close>

theorem counters_sum_to_discovered_witness:
  "uncaught (main env_broken (initial_state (Some batch_dir))) = None
   \<and> get_stl_files (initial_state (Some batch_dir)) \<noteq> []
   \<and> convert_all env_broken [''broken.stl'', ''cube.stl'']
         (0, 0, [], initial_state (Some batch_dir)) =
       (None, 1, 1, [''cube.stl''],
        after_conversions env_broken [''broken.stl'', ''cube.stl'']
          (initial_state (Some batch_dir)))
   \<and> result_summary (main env_broken (initial_state (Some batch_dir))) =
       Some ['''', replicate 60 CHR ''='', ''Conversion complete!'',
             ''  Successful: 1'', ''  Failed: 1'',
             ''  Output directory: /work/step_files'', replicate 60 CHR ''='']"
proof -
  have s: "filter (succeeds env_broken) [''broken.stl'', ''cube.stl''] = [''cube.stl'']"
    using env_broken_cube env_broken_broken by (simp add: succeeds_def)
  have f: "filter (fails env_broken) [''broken.stl'', ''cube.stl''] = [''broken.stl'']"
    using raised_escapes(3) [OF env_broken_broken] outcome_exclusive(1) [OF env_broken_cube]
    by simp
  have n: "get_stl_files (initial_state (Some batch_dir)) \<noteq> []"
    by (simp add: batch_files)
  have one: "str_int 1 = ''1''" by code_simp
  have p: "step_dir_path env_broken = ''/work/step_files''"
    by (simp add: env_broken_def env_ok_def)
  note t = counters_sum_to_discovered [OF examples_return(2) n,
             of "initial_state (Some batch_dir)" "''cube.stl''"]
  from t have "convert_all env_broken [''broken.stl'', ''cube.stl'']
                 (0, 0, [], initial_state (Some batch_dir)) =
               (None, 1, 1, [''cube.stl''],
                after_conversions env_broken [''broken.stl'', ''cube.stl'']
                  (initial_state (Some batch_dir)))"
    unfolding batch_files s f by simp
  moreover from t have "result_summary (main env_broken (initial_state (Some batch_dir))) =
       Some ['''', replicate 60 CHR ''='', ''Conversion complete!'',
             ''  Successful: 1'', ''  Failed: 1'',
             ''  Output directory: /work/step_files'', replicate 60 CHR ''='']"
    unfolding batch_files s f
    by (intro result_summary_of_console [where pre = "console (initial_state (Some batch_dir))
            @ header_lines @ found_lines [''broken.stl'', ''cube.stl'']
            @ concat (map (convert_lines env_broken) [''broken.stl'', ''cube.stl'']) @ [[]]
            @ concat (map (remove_lines env_broken) [''cube.stl''])"])
       (simp_all add: one p)
  ultimately show ?thesis
    using n by (simp add: examples_return)
qed

text \<open>
  Claim C8 says that a run that discovers no file reports zero successful and zero
  failed conversions in its summary. Such a run returns at line 117, before the summary:
  it prints the header and the three lines that say no file was found, and no count.
\<close>

theorem empty_run_counterexample:
  "get_stl_files (initial_state (Some empty_dir)) = []
   \<and> result_console (main env_ok (initial_state (Some empty_dir))) =
       Some (header_lines @ no_files_lines env_ok)
   \<and> \<not> result_printed (''  Successful: 0'') (main env_ok (initial_state (Some empty_dir)))
   \<and> \<not> result_printed (''  Failed: 0'') (main env_ok (initial_state (Some empty_dir)))"
proof -
  have m: "main env_ok (initial_state (Some empty_dir)) =
           Inr (run_state env_ok (initial_state (Some empty_dir)))"
    by (rule main_returns) (rule examples_return)
  have c: "console (run_state env_ok (initial_state (Some empty_dir))) =
           header_lines @ no_files_lines env_ok"
    using run_state_console_empty [OF empty_files, of env_ok]
    by (simp add: initial_state_simps)
  have b: "banner \<noteq> ''  Successful: 0''" "banner \<noteq> ''  Failed: 0''"
    by (simp_all add: banner_def eval_nat_numeral)
  have "''  Successful: 0'' \<notin> set (header_lines @ no_files_lines env_ok)"
    using b by (auto simp: header_lines_def no_files_lines_def)
  moreover have "''  Failed: 0'' \<notin> set (header_lines @ no_files_lines env_ok)"
    using b by (auto simp: header_lines_def no_files_lines_def)
  ultimately show ?thesis
    by (simp add: m c empty_files result_console_def result_printed_def)
qed

text \<open>
  Claim C8, amended. A run that discovers no file prints, after the header, the notice
  that no STL file was found, and ends there: it prints no summary and no count, calls
  neither the library nor \<^verbatim>\<open>os.remove\<close>, and leaves the names in the input directory
  as they were.
\<close>

theorem empty_run_prints_notice:
  assumes "makedirs_raises env STL_DIR = None" and "makedirs_raises env STEP_DIR = None"
    and "get_stl_files st0 = []"
  shows "result_console (main env st0) = Some (console st0 @ header_lines @ no_files_lines env)
         \<and> result_events (main env st0) = Some (events st0)
         \<and> result_names STL_DIR (main env st0) = Some (names st0 STL_DIR)"
proof -
  have c: "contained env (get_stl_files st0)"
    by (simp add: assms(3) contained_def)
  show ?thesis
    using run_state_console_empty [OF assms(3), of env] run_state_events [OF c]
          run_state_names_stl [OF c] assms(3)
    by (simp add: main_contained [OF assms(1,2) c] result_console_def result_events_def
                  result_names_def)
qed

theorem empty_run_prints_notice_witness:
  "makedirs_raises env_ok STL_DIR = None \<and> makedirs_raises env_ok STEP_DIR = None
   \<and> get_stl_files (initial_state (Some empty_dir)) = []
   \<and> result_console (main env_ok (initial_state (Some empty_dir))) =
       Some (header_lines @ no_files_lines env_ok)
   \<and> result_events (main env_ok (initial_state (Some empty_dir))) = Some []
   \<and> result_names STL_DIR (main env_ok (initial_state (Some empty_dir))) = Some []"
proof -
  have e: "map fst empty_dir = []" by (simp add: empty_dir_def)
  show ?thesis
    using empty_run_prints_notice [OF example_setup(1) example_setup(1) empty_files]
    by (simp add: example_setup empty_files initial_state_simps e)
qed

text \<open>
  Claim C9 says that the cleanup attempts to delete exactly the files that converted, and
  that every deletion attempt that raises an exception gets a warning line. The handler
  of line 143 is \<^verbatim>\<open>except Exception\<close>: an exception of \<^verbatim>\<open>os.remove\<close> that is not an
  instance of \<^verbatim>\<open>Exception\<close> ends the run. Here the user interrupts the run during the
  first \<^verbatim>\<open>os.remove\<close>: no warning is printed, no summary either, and the second
  converted file is never passed to \<^verbatim>\<open>os.remove\<close>.
\<close>

theorem interrupted_cleanup_counterexample:
  "get_stl_files (initial_state (Some pair_dir)) = [''ball.stl'', ''cube.stl'']
   \<and> fst (convert_stl_to_step env_remove_interrupted ''ball.stl''
            (initial_state (Some pair_dir))) = Returned True
   \<and> fst (convert_stl_to_step env_remove_interrupted ''cube.stl''
            (initial_state (Some pair_dir))) = Returned True
   \<and> remove_raises env_remove_interrupted ''ball.stl'' = Some (BaseExn ''KeyboardInterrupt'')
   \<and> uncaught (main env_remove_interrupted (initial_state (Some pair_dir))) =
       Some (BaseExn ''KeyboardInterrupt'')
   \<and> removals (events (final_state (main env_remove_interrupted
                                       (initial_state (Some pair_dir))))) =
       [(STL_DIR, ''ball.stl'')]
   \<and> console (final_state (main env_remove_interrupted (initial_state (Some pair_dir)))) =
       header_lines @ found_lines [''ball.stl'', ''cube.stl'']
         @ [''Converting: ball.stl'', ''  -> Created: ball.step'',
            ''Converting: cube.stl'', ''  -> Created: cube.step'', '''']
   \<and> result_summary (main env_remove_interrupted (initial_state (Some pair_dir))) = None"
proof -
  let ?env = env_remove_interrupted
  let ?st = "initial_state (Some pair_dir)"
  have su: "filter (succeeds ?env) [''ball.stl'', ''cube.stl''] = [''ball.stl'', ''cube.stl'']"
    by (simp add: env_remove_interrupted_succeeds)
  have le: "loop_escape ?env [''ball.stl'', ''cube.stl''] = None"
    by (rule loop_escape_None)
       (simp add: outcome_exclusive(2) [OF env_remove_interrupted_succeeds])
  have ce: "cleanup_escape ?env [''ball.stl'', ''cube.stl''] = Some (BaseExn ''KeyboardInterrupt'')"
    by (simp add: remove_raises_escapes(3) [OF example_remove(6)])
  have tf: "through_first (remove_escapes ?env) [''ball.stl'', ''cube.stl''] = [''ball.stl'']"
    by (simp add: remove_escapes_def remove_raises_escapes(3) [OF example_remove(6)])
  have m: "main ?env ?st = Inl (BaseExn ''KeyboardInterrupt'', cleanup_state ?env ?st)"
    unfolding main_eq [OF example_setup(6) example_setup(6)] pair_files su le ce by simp
  have rl: "remove_lines ?env ''ball.stl'' = []"
    by (simp add: remove_lines_def example_remove)
  have cl: "convert_lines ?env ''ball.stl'' = [''Converting: ball.stl'', ''  -> Created: ball.step'']"
           "convert_lines ?env ''cube.stl'' = [''Converting: cube.stl'', ''  -> Created: cube.step'']"
    by code_simp+
  have ev: "events (cleanup_state ?env ?st) =
            conversion_events ?env [''ball.stl'', ''cube.stl''] @ [OsRemove (STL_DIR, ''ball.stl'')]"
    unfolding cleanup_state_events pair_files su tf loop_escape_attempted [OF le]
    by (simp add: initial_state_simps)
  have co: "console (cleanup_state ?env ?st) =
            header_lines @ found_lines [''ball.stl'', ''cube.stl'']
              @ [''Converting: ball.stl'', ''  -> Created: ball.step'',
                 ''Converting: cube.stl'', ''  -> Created: cube.step'', '''']"
    unfolding cleanup_state_console pair_files su tf loop_escape_attempted [OF le]
    by (simp add: rl cl initial_state_simps)
  show ?thesis
    by (simp add: m ev co pair_files uncaught_def final_state_def result_summary_def
                  convert_fst outcome_of_cases env_remove_interrupted_succeeds example_remove
                  removals_append removals_conversion_events)
qed

text \<open>
  Claim C9, amended. Let the directories be set up. In every run, \<^verbatim>\<open>os.remove\<close> is
  called on source files only (paths in the input directory), and the files it is
  called on are the first ones of the list of converted files, once each and in their
  order: none of them when an exception ended the conversion loop, else those through
  the first one for which \<^verbatim>\<open>os.remove\<close> raises an exception that line 143 does not
  catch or cannot report. In a run that returns they are all the converted files and no
  other; when \<^verbatim>\<open>os.remove\<close> has raised an instance of \<^verbatim>\<open>Exception\<close> for one of them,
  the warning naming the file and the exception is printed; and the summary, with its
  two counts, is the same as in a returning run in which \<^verbatim>\<open>os.remove\<close> behaves
  in another way.
\<close>

theorem cleanup_attempts:
  assumes "makedirs_raises env STL_DIR = None" and "makedirs_raises env STEP_DIR = None"
  shows "removals (events (final_state (main env st0))) =
           removals (events st0)
             @ map (os_path_join STL_DIR) (cleanup_attempted env (get_stl_files st0))
         \<and> cleanup_attempted env (get_stl_files st0) =
             take (length (cleanup_attempted env (get_stl_files st0)))
               (filter (succeeds env) (get_stl_files st0))
         \<and> (uncaught (main env st0) = None \<longrightarrow>
              result_removals (main env st0) =
                Some (removals (events st0)
                        @ map (os_path_join STL_DIR) (filter (succeeds env) (get_stl_files st0)))
              \<and> (f \<in> set (get_stl_files st0) \<and> succeeds env f
                    \<and> remove_raises env f = Some (Exn msg)
                   \<longrightarrow> result_printed (''Warning: Could not remove '' @ f @ '': '' @ msg)
                         (main env st0))
              \<and> (uncaught (main (env\<lparr>remove_raises := r\<rparr>) st0) = None
                   \<longrightarrow> result_summary (main (env\<lparr>remove_raises := r\<rparr>) st0) =
                         result_summary (main env st0)))"
proof (intro conjI impI)
  show "removals (events (final_state (main env st0))) =
          removals (events st0)
            @ map (os_path_join STL_DIR) (cleanup_attempted env (get_stl_files st0))"
    by (simp add: main_events [OF assms] removals_append removals_conversion_events
                  removals_os_remove)
  show "cleanup_attempted env (get_stl_files st0) =
          take (length (cleanup_attempted env (get_stl_files st0)))
            (filter (succeeds env) (get_stl_files st0))"
    by (rule cleanup_attempted_prefix)
next
  assume u: "uncaught (main env st0) = None"
  note m = main_returns [OF u]
  show "result_removals (main env st0) =
          Some (removals (events st0)
                  @ map (os_path_join STL_DIR) (filter (succeeds env) (get_stl_files st0)))"
    by (simp add: m(1) result_removals_def run_state_events_split [OF m(4)] removals_append
                  removals_conversion_events removals_os_remove)
next
  assume u: "uncaught (main env st0) = None"
    and a: "f \<in> set (get_stl_files st0) \<and> succeeds env f \<and> remove_raises env f = Some (Exn msg)"
  from a show "result_printed (''Warning: Could not remove '' @ f @ '': '' @ msg) (main env st0)"
    by (intro removal_reported(2) [OF u]) simp_all
next
  assume u: "uncaught (main env st0) = None"
    and u': "uncaught (main (env\<lparr>remove_raises := r\<rparr>) st0) = None"
  note m = main_returns [OF u]
  note m' = main_returns [OF u']
  show "result_summary (main (env\<lparr>remove_raises := r\<rparr>) st0) = result_summary (main env st0)"
    by (simp add: m(1) m'(1) result_summary_def run_state_summary [OF m(4) m'(4)])
qed

text \<open>\<^verbatim>\<open>cube.stl\<close> converts and cannot be deleted.\<close>

theorem cleanup_attempts_witness:
  "makedirs_raises env_remove_fails STL_DIR = None
   \<and> makedirs_raises env_remove_fails STEP_DIR = None
   \<and> uncaught (main env_remove_fails (initial_state (Some cube_dir))) = None
   \<and> uncaught (main env_ok (initial_state (Some cube_dir))) = None
   \<and> ''cube.stl'' \<in> set (get_stl_files (initial_state (Some cube_dir)))
   \<and> succeeds env_remove_fails ''cube.stl''
   \<and> remove_raises env_remove_fails ''cube.stl'' = Some (Exn ''Permission denied'')
   \<and> result_removals (main env_remove_fails (initial_state (Some cube_dir))) =
       Some [(STL_DIR, ''cube.stl'')]
   \<and> result_printed ''Warning: Could not remove cube.stl: Permission denied''
        (main env_remove_fails (initial_state (Some cube_dir)))
   \<and> result_summary (main env_ok (initial_state (Some cube_dir))) =
       result_summary (main env_remove_fails (initial_state (Some cube_dir)))"
proof -
  have f: "filter (succeeds env_remove_fails) [''cube.stl''] = [''cube.stl'']"
    by (simp add: env_remove_fails_succeeds)
  show ?thesis
    using cleanup_attempts [OF example_setup(4) example_setup(4),
            of "initial_state (Some cube_dir)" "''cube.stl''" "''Permission denied''"
               "remove_raises env_ok"]
    by (simp add: example_setup examples_return cube_files env_remove_fails_succeeds
                  example_remove f initial_state_simps env_remove_fails_reset os_path_join_def)
qed

text \<open>
  Claim C10. When the directories can be set up, the calls that leave the script come in
  two blocks: first the library calls of the conversion attempts, one discovered file after
  the other in discovery order, then the calls of \<^verbatim>\<open>os.remove\<close>. In a run that returns,
  the first block holds the attempts of all discovered files and the deletions are those
  of the successfully converted files in the order they were processed, which is
  lexicographic. In a run that an exception ends the log has the same two blocks, cut
  short: the deletions are the first ones of that list, and there is none unless the
  conversion of every discovered file has been attempted.
\<close>

theorem deletions_follow_conversions:
  assumes "makedirs_raises env STL_DIR = None" and "makedirs_raises env STEP_DIR = None"
  shows "(uncaught (main env st0) = None \<longrightarrow>
            result_events (main env st0) =
              Some (events st0 @ conversion_events env (get_stl_files st0)
                      @ map (\<lambda>f. OsRemove (STL_DIR, f))
                          (filter (succeeds env) (get_stl_files st0))))
         \<and> events (final_state (main env st0)) =
             events st0 @ conversion_events env (attempted env (get_stl_files st0))
               @ map (\<lambda>f. OsRemove (STL_DIR, f)) (cleanup_attempted env (get_stl_files st0))
         \<and> (cleanup_attempted env (get_stl_files st0) \<noteq> [] \<longrightarrow>
              attempted env (get_stl_files st0) = get_stl_files st0)
         \<and> cleanup_attempted env (get_stl_files st0) =
             take (length (cleanup_attempted env (get_stl_files st0)))
               (filter (succeeds env) (get_stl_files st0))
         \<and> list_all is_lib_call (conversion_events env (attempted env (get_stl_files st0)))
         \<and> attempts (conversion_events env (attempted env (get_stl_files st0))) =
             attempted env (get_stl_files st0)
         \<and> list_all is_lib_call (conversion_events env (get_stl_files st0))
         \<and> attempts (conversion_events env (get_stl_files st0)) = get_stl_files st0
         \<and> sorted (get_stl_files st0)
         \<and> sorted (filter (succeeds env) (get_stl_files st0))"
proof -
  have 1: "uncaught (main env st0) = None \<longrightarrow>
            result_events (main env st0) =
              Some (events st0 @ conversion_events env (get_stl_files st0)
                      @ map (\<lambda>f. OsRemove (STL_DIR, f))
                          (filter (succeeds env) (get_stl_files st0)))"
  proof
    assume u: "uncaught (main env st0) = None"
    note m = main_returns [OF u]
    show "result_events (main env st0) =
              Some (events st0 @ conversion_events env (get_stl_files st0)
                      @ map (\<lambda>f. OsRemove (STL_DIR, f))
                          (filter (succeeds env) (get_stl_files st0)))"
      by (simp add: m(1) result_events_def run_state_events_split [OF m(4)])
  qed
  have 2: "cleanup_attempted env (get_stl_files st0) \<noteq> [] \<longrightarrow>
              attempted env (get_stl_files st0) = get_stl_files st0"
    by (simp add: cleanup_attempted_after_loop)
  have 3: "sorted (filter (succeeds env) (get_stl_files st0))"
    using sorted_get_stl_files [of st0] by (rule sorted_wrt_filter)
  from 1 2 3 main_events [OF assms, of st0] cleanup_attempted_prefix [of env "get_stl_files st0"]
  show ?thesis
    by (simp add: lib_calls_conversion_events attempts_conversion_events sorted_get_stl_files)
qed

theorem deletions_follow_conversions_witness:
  "makedirs_raises env_broken STL_DIR = None \<and> makedirs_raises env_broken STEP_DIR = None
   \<and> uncaught (main env_broken (initial_state (Some batch_dir))) = None
   \<and> cleanup_attempted env_broken (get_stl_files (initial_state (Some batch_dir))) \<noteq> []
   \<and> result_events (main env_broken (initial_state (Some batch_dir))) =
       Some (conversion_events env_broken [''broken.stl'', ''cube.stl'']
               @ [OsRemove (STL_DIR, ''cube.stl'')])
   \<and> attempts (conversion_events env_broken [''broken.stl'', ''cube.stl'']) =
       [''broken.stl'', ''cube.stl'']"
proof -
  have s: "filter (succeeds env_broken) [''broken.stl'', ''cube.stl''] = [''cube.stl'']"
    using env_broken_cube env_broken_broken by (simp add: succeeds_def)
  have c: "contained env_broken [''broken.stl'', ''cube.stl'']"
    by (rule contained_examples)
  have ca: "cleanup_attempted env_broken [''broken.stl'', ''cube.stl''] = [''cube.stl'']"
    unfolding cleanup_attempted_def contained_escapes [OF c] s by simp
  show ?thesis
    using deletions_follow_conversions [OF example_setup(2) example_setup(2),
            of "initial_state (Some batch_dir)"]
    unfolding batch_files s ca
    by (simp add: example_setup examples_return initial_state_simps)
qed

section \<open>What a run leaves in the directories\<close>

text \<open>
  Claim C2 says that after the run the input file of a successful conversion no longer
  exists. The deletion is tried, and when \<^verbatim>\<open>os.remove\<close> raises, lines 143 and 144 print a
  warning and go on: the input file is still there.
\<close>

theorem undeleted_input_counterexample:
  "''cube.stl'' \<in> set (get_stl_files (initial_state (Some cube_dir)))
   \<and> fst (convert_stl_to_step env_remove_fails ''cube.stl'' (initial_state (Some cube_dir)))
       = Returned True
   \<and> result_count STL_DIR ''cube.stl'' (main env_remove_fails (initial_state (Some cube_dir)))
       = Some 1"
proof -
  have d: "distinct (names (initial_state (Some cube_dir)) STL_DIR)"
    by (simp add: initial_state_simps cube_dir_def)
  have f: "''cube.stl'' \<in> set (get_stl_files (initial_state (Some cube_dir)))"
    by (simp add: cube_files)
  have m: "main env_remove_fails (initial_state (Some cube_dir)) =
           Inr (run_state env_remove_fails (initial_state (Some cube_dir)))"
    by (rule main_returns) (rule examples_return)
  have r: "remove_raises env_remove_fails ''cube.stl'' \<noteq> None"
    by (simp add: example_remove)
  show ?thesis
    using run_count_stl [OF d f contained_examples(4)] r f
    by (simp add: m result_count_def convert_fst outcome_of_cases env_remove_fails_succeeds)
qed

text \<open>
  Claim C2, amended. Take a run that returns, in which no name occurs twice in either
  directory at the start. For a discovered file whose conversion succeeds
  (\<^verbatim>\<open>convert_stl_to_step\<close> returns \<^verbatim>\<open>True\<close>), after the run the output directory holds exactly
  one entry with the output name of the file, and the input directory no longer holds the
  file when its \<^verbatim>\<open>os.remove\<close> returned. When that call raised, the file is still there, and
  the run has printed the warning that names the file and the exception.
\<close>

theorem successful_conversion_outcome:
  assumes "uncaught (main env st0) = None"
    and "f \<in> set (get_stl_files st0)" and "succeeds env f"
    and "distinct (names st0 STL_DIR)" and "distinct (names st0 STEP_DIR)"
  shows "fst (convert_stl_to_step env f st) = Returned True
         \<and> result_count STEP_DIR (step_name f) (main env st0) = Some 1
         \<and> result_count STL_DIR f (main env st0) =
             Some (if remove_raises env f = None then 0 else 1)
         \<and> (remove_raises env f = Some (Exn msg) \<longrightarrow>
              result_printed (''Warning: Could not remove '' @ f @ '': '' @ msg) (main env st0))
         \<and> (remove_raises env f = None \<or> (\<exists>m. remove_raises env f = Some (Exn m)))"
proof -
  note m = main_returns [OF assms(1)]
  have 1: "fst (convert_stl_to_step env f st) = Returned True"
    using assms(3) by (simp add: convert_fst outcome_of_cases)
  have 2: "result_count STEP_DIR (step_name f) (main env st0) = Some 1"
    using run_count_step [OF assms(5) assms(2) exported_wrote [OF succeeds_exported [OF assms(3)]]]
    by (simp add: m(1) result_count_def)
  have 3: "result_count STL_DIR f (main env st0) =
             Some (if remove_raises env f = None then 0 else 1)"
    using run_count_stl [OF assms(4) assms(2) m(4)] assms(3)
    by (simp add: m(1) result_count_def)
  have 4: "remove_raises env f = Some (Exn msg) \<longrightarrow>
              result_printed (''Warning: Could not remove '' @ f @ '': '' @ msg) (main env st0)"
    using removal_reported(2) [OF assms(1,2,3)] by blast
  from m(4) assms(2,3) have "\<not> remove_escapes env f"
    by (simp add: contained_def list_all_iff)
  then have 5: "remove_raises env f = None \<or> (\<exists>m. remove_raises env f = Some (Exn m))"
    by (auto simp: remove_escapes_def remove_escape_def split: option.splits exn.splits)
  from 1 2 3 4 5 show ?thesis by blast
qed

text \<open>\<^verbatim>\<open>cube.stl\<close> converts; in one run it is deleted, in the other it cannot be.\<close>

theorem successful_conversion_outcome_witness:
  "uncaught (main env_ok (initial_state (Some cube_dir))) = None
   \<and> uncaught (main env_remove_fails (initial_state (Some cube_dir))) = None
   \<and> ''cube.stl'' \<in> set (get_stl_files (initial_state (Some cube_dir)))
   \<and> succeeds env_ok ''cube.stl'' \<and> succeeds env_remove_fails ''cube.stl''
   \<and> distinct (names (initial_state (Some cube_dir)) STL_DIR)
   \<and> distinct (names (initial_state (Some cube_dir)) STEP_DIR)
   \<and> remove_raises env_remove_fails ''cube.stl'' = Some (Exn ''Permission denied'')
   \<and> result_count STEP_DIR ''cube.step'' (main env_ok (initial_state (Some cube_dir))) = Some 1
   \<and> result_count STL_DIR ''cube.stl'' (main env_ok (initial_state (Some cube_dir))) = Some 0
   \<and> result_count STEP_DIR ''cube.step''
       (main env_remove_fails (initial_state (Some cube_dir))) = Some 1
   \<and> result_count STL_DIR ''cube.stl''
       (main env_remove_fails (initial_state (Some cube_dir))) = Some 1
   \<and> result_printed ''Warning: Could not remove cube.stl: Permission denied''
       (main env_remove_fails (initial_state (Some cube_dir)))"
proof -
  have d: "distinct (names (initial_state (Some cube_dir)) STL_DIR)"
    by (simp add: initial_state_simps cube_dir_def)
  have d': "distinct (names (initial_state (Some cube_dir)) STEP_DIR)"
    by (simp add: initial_state_simps)
  have f: "''cube.stl'' \<in> set (get_stl_files (initial_state (Some cube_dir)))"
    by (simp add: cube_files)
  note a = successful_conversion_outcome
             [OF examples_return(1) f env_ok_succeeds d d',
              of "initial_state (Some cube_dir)" "''Permission denied''"]
  note b = successful_conversion_outcome
             [OF examples_return(4) f env_remove_fails_succeeds d d',
              of "initial_state (Some cube_dir)" "''Permission denied''"]
  from a b d d' f show ?thesis
    by (simp add: examples_return env_ok_succeeds env_remove_fails_succeeds step_name_cube
                  example_remove)
qed

text \<open>
  Claim C3 says that a conversion that fails anywhere in the library calls creates no
  output file. \<^verbatim>\<open>FreeCAD.closeDocument\<close> (line 92) is called after \<^verbatim>\<open>exportStep\<close> (line 89)
  inside the same \<^verbatim>\<open>try\<close>: when it raises, the conversion is a failure and the output
  file has been written.
\<close>

theorem output_of_failed_conversion_counterexample:
  "''cube.stl'' \<in> set (get_stl_files (initial_state (Some cube_dir)))
   \<and> raised env_close_fails ''cube.stl'' = Some (Exn ''document cannot be closed'')
   \<and> fst (convert_stl_to_step env_close_fails ''cube.stl'' (initial_state (Some cube_dir)))
       = Returned False
   \<and> names (initial_state (Some cube_dir)) STEP_DIR = []
   \<and> result_names STEP_DIR (main env_close_fails (initial_state (Some cube_dir)))
       = Some [''cube.step'']"
proof -
  have m: "main env_close_fails (initial_state (Some cube_dir)) =
           Inr (run_state env_close_fails (initial_state (Some cube_dir)))"
    by (rule main_returns) (rule examples_return)
  have s: "fails env_close_fails ''cube.stl''"
    by (rule raised_escapes(3)) (rule env_close_fails_raised)
  have w: "wrote env_close_fails ''cube.stl''"
    by (rule exported_wrote) (rule env_close_fails_exported)
  have n: "names (run_state env_close_fails (initial_state (Some cube_dir))) STEP_DIR =
           [''cube.step'']"
    by (simp add: run_state_names_step cube_files w step_name_cube
                  initial_state_simps add_name_def)
  show ?thesis
    using s
    by (simp add: m n result_names_def convert_fst outcome_of_cases cube_files
                  env_close_fails_raised initial_state_simps)
qed

text \<open>
  Claim C3, amended. Let the directories be set up and no name occur twice in the input
  directory at the start, and take a discovered file during whose conversion the library
  raises an exception. \<^verbatim>\<open>convert_stl_to_step\<close> returns \<^verbatim>\<open>False\<close> for it when the exception
  is an instance of \<^verbatim>\<open>Exception\<close> that can be reported, and passes an exception on
  otherwise. However the run ends, \<^verbatim>\<open>os.remove\<close> is called on converted files only, so
  not on this one, and the file is still in the input directory at the end. When the
  exception is raised before \<^verbatim>\<open>exportStep\<close> is called, the conversion leaves both
  directories as they were. In general the conversion changes the directories only by
  writing the output file, which it does when \<^verbatim>\<open>exportStep\<close> is called and either
  returns or leaves a file although it raises; over the run, the output directory gains
  the outputs of exactly those files among the ones whose conversion was begun.
\<close>

theorem failed_conversion_outcome:
  assumes "makedirs_raises env STL_DIR = None" and "makedirs_raises env STEP_DIR = None"
    and "f \<in> set (get_stl_files st0)" and "raised env f = Some e"
    and "distinct (names st0 STL_DIR)"
  shows "fst (convert_stl_to_step env f st) =
           (case e of Exn m \<Rightarrow> Returned False
                    | Unprintable e' \<Rightarrow> Raised e'
                    | BaseExn m \<Rightarrow> Raised (BaseExn m))
         \<and> removals (events (final_state (main env st0))) =
             removals (events st0)
               @ map (os_path_join STL_DIR) (cleanup_attempted env (get_stl_files st0))
         \<and> f \<notin> set (cleanup_attempted env (get_stl_files st0))
         \<and> count_list (names (final_state (main env st0)) STL_DIR) f = 1
         \<and> (\<not> reached_export env f \<longrightarrow> dirs (snd (convert_stl_to_step env f st)) = dirs st)
         \<and> dirs (snd (convert_stl_to_step env f st)) =
             (if reached_export env f
                 \<and> (lib_raises env f ExportStep = None \<or> export_leaves_file env f)
              then dirs (write_file (step_path f) st) else dirs st)
         \<and> names (final_state (main env st0)) STEP_DIR =
             fold add_name
               (map step_name (filter (wrote env) (attempted env (get_stl_files st0))))
               (names st0 STEP_DIR)
         \<and> (uncaught (main env st0) = None \<longrightarrow>
              fst (convert_stl_to_step env f st) = Returned False
              \<and> result_count STL_DIR f (main env st0) = Some 1
              \<and> result_names STEP_DIR (main env st0) =
                  Some (fold add_name
                          (map step_name (filter (wrote env) (get_stl_files st0)))
                          (names st0 STEP_DIR)))"
proof -
  from assms(4) have s: "\<not> succeeds env f" by (simp add: succeeds_def)
  have 1: "fst (convert_stl_to_step env f st) =
           (case e of Exn m \<Rightarrow> Returned False
                    | Unprintable e' \<Rightarrow> Raised e'
                    | BaseExn m \<Rightarrow> Raised (BaseExn m))"
    by (simp add: convert_ends assms(4))
  have 2: "removals (events (final_state (main env st0))) =
             removals (events st0)
               @ map (os_path_join STL_DIR) (cleanup_attempted env (get_stl_files st0))"
    by (simp add: main_events [OF assms(1,2)] removals_append removals_conversion_events
                  removals_os_remove)
  note 3 = failed_input_stays [OF assms(1,2,5,3) s]
  have 5: "\<not> reached_export env f \<longrightarrow> dirs (snd (convert_stl_to_step env f st)) = dirs st"
    by (simp add: convert_dirs wrote_def)
  have 6: "dirs (snd (convert_stl_to_step env f st)) =
             (if reached_export env f
                 \<and> (lib_raises env f ExportStep = None \<or> export_leaves_file env f)
              then dirs (write_file (step_path f) st) else dirs st)"
    by (simp add: convert_dirs wrote_def)
  note 7 = main_names(2) [OF assms(1,2), of st0]
  have 8: "uncaught (main env st0) = None \<longrightarrow>
              fst (convert_stl_to_step env f st) = Returned False
              \<and> result_count STL_DIR f (main env st0) = Some 1
              \<and> result_names STEP_DIR (main env st0) =
                  Some (fold add_name
                          (map step_name (filter (wrote env) (get_stl_files st0)))
                          (names st0 STEP_DIR))"
  proof (intro impI conjI)
    assume u: "uncaught (main env st0) = None"
    note m = main_returns [OF u]
    from m(4) assms(3) have "\<not> escapes env f"
      by (simp add: contained_def list_all_iff)
    with s have "fails env f" by (simp add: outcome_exclusive)
    then show "fst (convert_stl_to_step env f st) = Returned False"
      by (simp add: convert_fst outcome_of_cases)
    show "result_count STL_DIR f (main env st0) = Some 1"
      using run_count_stl [OF assms(5) assms(3) m(4)] s
      by (simp add: m(1) result_count_def)
    show "result_names STEP_DIR (main env st0) =
            Some (fold add_name (map step_name (filter (wrote env) (get_stl_files st0)))
                    (names st0 STEP_DIR))"
      by (simp add: m(1) result_names_def run_state_names_step)
  qed
  from 1 2 3 5 6 7 8 show ?thesis by blast
qed

text \<open>\<^verbatim>\<open>Mesh.insert\<close> raises on \<^verbatim>\<open>broken.stl\<close>, long before the export.\<close>

theorem failed_conversion_outcome_witness:
  "makedirs_raises env_broken STL_DIR = None \<and> makedirs_raises env_broken STEP_DIR = None
   \<and> ''broken.stl'' \<in> set (get_stl_files (initial_state (Some batch_dir)))
   \<and> raised env_broken ''broken.stl'' = Some (Exn ''not a valid mesh'')
   \<and> distinct (names (initial_state (Some batch_dir)) STL_DIR)
   \<and> \<not> reached_export env_broken ''broken.stl''
   \<and> uncaught (main env_broken (initial_state (Some batch_dir))) = None
   \<and> fst (convert_stl_to_step env_broken ''broken.stl'' (initial_state (Some batch_dir)))
       = Returned False
   \<and> removals (events (final_state (main env_broken (initial_state (Some batch_dir)))))
       = [(STL_DIR, ''cube.stl'')]
   \<and> result_count STL_DIR ''broken.stl'' (main env_broken (initial_state (Some batch_dir)))
       = Some 1
   \<and> dirs (snd (convert_stl_to_step env_broken ''broken.stl''
                   (initial_state (Some batch_dir)))) = dirs (initial_state (Some batch_dir))
   \<and> result_names STEP_DIR (main env_broken (initial_state (Some batch_dir)))
       = Some [''cube.step'']"
proof -
  have d: "distinct (names (initial_state (Some batch_dir)) STL_DIR)"
    by (simp add: initial_state_simps batch_dir_def)
  have f: "''broken.stl'' \<in> set (get_stl_files (initial_state (Some batch_dir)))"
    by (simp add: batch_files)
  have x: "\<not> reached_export env_broken ''broken.stl''"
    by (simp add: reached_export_def call_defs env_broken_def env_ok_def)
  then have x': "\<not> wrote env_broken ''broken.stl''"
    by (simp add: wrote_def)
  have c: "wrote env_broken ''cube.stl''"
    using env_broken_cube by (intro exported_wrote succeeds_exported)
  have e: "filter (wrote env_broken) [''broken.stl'', ''cube.stl''] = [''cube.stl'']"
    using x' c by simp
  have s: "filter (succeeds env_broken) [''broken.stl'', ''cube.stl''] = [''cube.stl'']"
    using env_broken_cube env_broken_broken by (simp add: succeeds_def)
  have co: "contained env_broken [''broken.stl'', ''cube.stl'']"
    by (rule contained_examples)
  have ca: "cleanup_attempted env_broken [''broken.stl'', ''cube.stl''] = [''cube.stl'']"
    unfolding cleanup_attempted_def contained_escapes [OF co] s by simp
  show ?thesis
    using failed_conversion_outcome
            [OF example_setup(2) example_setup(2) f env_broken_broken d,
             where st = "initial_state (Some batch_dir)"] d f x
    unfolding batch_files e s ca contained_escapes(3) [OF co]
    by (simp add: example_setup examples_return env_broken_broken step_name_cube
                  initial_state_simps add_name_def os_path_join_def)
qed

section \<open>Failures stay with their file\<close>

text \<open>
  Claim C4 says that every exception raised by the library is caught inside
  \<^verbatim>\<open>convert_stl_to_step\<close> and that the batch goes on. The handler of line 97 is
  \<^verbatim>\<open>except Exception\<close>, and the call of line 130 is not inside a \<^verbatim>\<open>try\<close>: an exception
  that is not an instance of \<^verbatim>\<open>Exception\<close> leaves \<^verbatim>\<open>convert_stl_to_step\<close> and ends the run.
  Here the library raises \<^verbatim>\<open>KeyboardInterrupt\<close> while \<^verbatim>\<open>broken.stl\<close> is converted: no error
  line is printed, the run ends with that exception, and the conversion of \<^verbatim>\<open>cube.stl\<close>
  is never begun.
\<close>

theorem uncaught_library_exception_counterexample:
  "get_stl_files (initial_state (Some batch_dir)) = [''broken.stl'', ''cube.stl'']
   \<and> raised env_interrupt ''broken.stl'' = Some (BaseExn ''KeyboardInterrupt'')
   \<and> fst (convert_stl_to_step env_interrupt ''broken.stl'' (initial_state (Some batch_dir)))
       = Raised (BaseExn ''KeyboardInterrupt'')
   \<and> uncaught (main env_interrupt (initial_state (Some batch_dir))) =
       Some (BaseExn ''KeyboardInterrupt'')
   \<and> attempts (events (final_state (main env_interrupt (initial_state (Some batch_dir))))) =
       [''broken.stl'']
   \<and> console (final_state (main env_interrupt (initial_state (Some batch_dir)))) =
       header_lines @ found_lines [''broken.stl'', ''cube.stl''] @ [''Converting: broken.stl'']"
proof -
  let ?env = env_interrupt
  let ?st = "initial_state (Some batch_dir)"
  note esc = raised_escapes(4) [OF env_interrupt_broken]
  have le: "loop_escape ?env [''broken.stl'', ''cube.stl''] = Some (BaseExn ''KeyboardInterrupt'')"
    by (simp add: esc)
  have at: "attempted ?env [''broken.stl'', ''cube.stl''] = [''broken.stl'']"
    by (simp add: attempted_def escapes_def esc)
  have m: "main ?env ?st = Inl (BaseExn ''KeyboardInterrupt'', loop_state ?env ?st)"
    unfolding main_eq [OF example_setup(5) example_setup(5)] batch_files le by simp
  have cl: "convert_lines ?env ''broken.stl'' = [''Converting: broken.stl'']"
    by code_simp
  have ev: "attempts (events (loop_state ?env ?st)) = [''broken.stl'']"
    unfolding loop_state_events batch_files at
    by (simp add: initial_state_simps attempts_conversion_events)
  have co: "console (loop_state ?env ?st) =
            header_lines @ found_lines [''broken.stl'', ''cube.stl''] @ [''Converting: broken.stl'']"
    unfolding loop_state_console batch_files at
    by (simp add: cl initial_state_simps)
  have o: "outcome_of ?env ''broken.stl'' = Raised (BaseExn ''KeyboardInterrupt'')"
    by (simp add: outcome_of_cases esc)
  show ?thesis
    by (simp add: m ev co o batch_files uncaught_def final_state_def convert_fst
                  env_interrupt_broken)
qed

text \<open>
  Claim C4, amended. When the library raises, while a file is converted, an instance of
  \<^verbatim>\<open>Exception\<close> whose message can be printed, \<^verbatim>\<open>convert_stl_to_step\<close> returns \<^verbatim>\<open>False\<close> instead
  of passing the exception on, and the last line it prints is the error line with the
  name of the file and the message of the exception. The loop then adds one to the failed
  counter, leaves the other counter and the removal list alone, and goes on with the
  remaining files. In a run whose directories can be set up, the conversions begun are
  those of the discovered files, in discovery order, through the first one that an
  exception leaves: all of them when there is no such file. An exception leaves
  \<^verbatim>\<open>convert_stl_to_step\<close> exactly when it is not an instance of \<^verbatim>\<open>Exception\<close> or when
  reporting it raises.
\<close>

theorem library_exception_is_per_file_failure:
  assumes "raised env f = Some (Exn msg)"
  shows "fst (convert_stl_to_step env f st) = Returned False
         \<and> last (console (snd (convert_stl_to_step env f st))) =
             ''  ERROR converting '' @ f @ '': '' @ msg
         \<and> convert_all env (f # rest) (successful, failed, files_to_remove, st) =
             convert_all env rest
               (successful, failed + 1, files_to_remove, snd (convert_stl_to_step env f st))
         \<and> fst (convert_stl_to_step env g st) =
             (case raised env g of
                None \<Rightarrow> Returned True
              | Some (Exn m) \<Rightarrow> Returned False
              | Some (Unprintable e') \<Rightarrow> Raised e'
              | Some (BaseExn m) \<Rightarrow> Raised (BaseExn m))
         \<and> \<not> escapes env f
         \<and> (escapes env g \<longleftrightarrow> (\<exists>e. fst (convert_stl_to_step env g st) = Raised e))
         \<and> (makedirs_raises env STL_DIR = None \<and> makedirs_raises env STEP_DIR = None
              \<longrightarrow> attempts (events (final_state (main env st0))) =
                    attempts (events st0) @ attempted env (get_stl_files st0)
                  \<and> (list_all (\<lambda>g. \<not> escapes env g) (get_stl_files st0)
                       \<longrightarrow> attempted env (get_stl_files st0) = get_stl_files st0))"
proof -
  note fl = raised_escapes(3) [OF assms]
  then have 1: "fst (convert_stl_to_step env f st) = Returned False"
    by (simp add: convert_fst outcome_of_cases)
  have 2: "last (console (snd (convert_stl_to_step env f st))) =
             ''  ERROR converting '' @ f @ '': '' @ msg"
    using convert_failure_line [OF assms]
    by (simp add: convert_console error_line_def)
  obtain r st' where c: "convert_stl_to_step env f st = (r, st')"
    by (cases "convert_stl_to_step env f st")
  with 1 have "r = Returned False" by simp
  with c have 3: "convert_all env (f # rest) (successful, failed, files_to_remove, st) =
             convert_all env rest
               (successful, failed + 1, files_to_remove, snd (convert_stl_to_step env f st))"
    by simp
  have 4: "\<not> escapes env f"
    by (rule raised_escapes(2)) (rule assms)
  have 7: "fst (convert_stl_to_step env g st) =
             (case raised env g of
                None \<Rightarrow> Returned True
              | Some (Exn m) \<Rightarrow> Returned False
              | Some (Unprintable e') \<Rightarrow> Raised e'
              | Some (BaseExn m) \<Rightarrow> Raised (BaseExn m))"
    by (rule convert_ends)
  have 5: "escapes env g \<longleftrightarrow> (\<exists>e. fst (convert_stl_to_step env g st) = Raised e)"
    by (simp add: convert_fst outcome_of_cases(3))
  have 6: "makedirs_raises env STL_DIR = None \<and> makedirs_raises env STEP_DIR = None
              \<longrightarrow> attempts (events (final_state (main env st0))) =
                    attempts (events st0) @ attempted env (get_stl_files st0)
                  \<and> (list_all (\<lambda>g. \<not> escapes env g) (get_stl_files st0)
                       \<longrightarrow> attempted env (get_stl_files st0) = get_stl_files st0)"
    by (simp add: main_events attempts_append attempts_conversion_events attempts_os_remove
                  attempted_all)
  from 1 2 3 4 5 6 7 show ?thesis by blast
qed

text \<open>\<^verbatim>\<open>Mesh.insert\<close> raises an error on \<^verbatim>\<open>broken.stl\<close>; \<^verbatim>\<open>cube.stl\<close> is converted after it.\<close>

theorem library_exception_is_per_file_failure_witness:
  "raised env_broken ''broken.stl'' = Some (Exn ''not a valid mesh'')
   \<and> makedirs_raises env_broken STL_DIR = None \<and> makedirs_raises env_broken STEP_DIR = None
   \<and> list_all (\<lambda>g. \<not> escapes env_broken g) (get_stl_files (initial_state (Some batch_dir)))
   \<and> fst (convert_stl_to_step env_broken ''broken.stl'' (initial_state (Some batch_dir)))
       = Returned False
   \<and> last (console (snd (convert_stl_to_step env_broken ''broken.stl''
                           (initial_state (Some batch_dir))))) =
       ''  ERROR converting broken.stl: not a valid mesh''
   \<and> attempts (events (final_state (main env_broken (initial_state (Some batch_dir))))) =
       [''broken.stl'', ''cube.stl'']"
proof -
  have c: "contained env_broken (get_stl_files (initial_state (Some batch_dir)))"
    by (rule contained_examples)
  then have ne: "list_all (\<lambda>g. \<not> escapes env_broken g)
                   (get_stl_files (initial_state (Some batch_dir)))"
    by (simp add: contained_def)
  from library_exception_is_per_file_failure
          [OF env_broken_broken, of "initial_state (Some batch_dir)" "[]" 0 0 "[]"
             "''cube.stl''" "initial_state (Some batch_dir)"] ne
  show ?thesis
    by (simp add: example_setup env_broken_broken batch_files initial_state_simps)
qed

end
